theory Spec2Isabelle
  imports Main
begin

section \<open>Data model of \<^verbatim>\<open>src/index.ts\<close>\<close>

text \<open>
  The program is one sequential pass over the records of a remote catalog. Everything it
  calls outside \<^verbatim>\<open>src/index.ts\<close> (the video provider, the encoder process, the
  filesystem, the UUID generator, the JSON codec, the path and filename helpers) is a field
  of the environment record \<open>env\<close> below; the functions of the source are translated over
  it. Console output and the two start-up guards (lines 18-29: the encoder must be
  executable, the store's credentials must be set) are not modelled.
\<close>

datatype error = InvalidUrl | ProviderError | NoFormatFound | SyntaxError | SourceUnavailable

text \<open>
  Modelled from the spec: the provider's type of a stream descriptor
  (\<^verbatim>\<open>info.formats[i]\<close>) is not under \<^verbatim>\<open>src/\<close>. Section 6 of the specification
  gives it the three properties the source reads: \<^verbatim>\<open>hasAudio\<close>, an optional
  \<^verbatim>\<open>audioSampleRate\<close> and \<^verbatim>\<open>url\<close>. The provider reports a rate as a string of
  digits, which the source turns into a number with unary plus (lines 108 and 116).
  \<open>audioSampleRate\<close> is \<open>Some r\<close> for a reported rate that denotes the whole number
  \<open>r\<close> of Hz, and \<open>None\<close> for a rate that is not reported (\<^verbatim>\<open>undefined\<close>, or the
  empty string, which the source cannot tell apart). A reported rate is a non-empty
  string and so is truthy whatever number it denotes, \<^verbatim>\<open>'0'\<close> included. Strings that
  denote no whole number are outside the model.
\<close>

record videoFormat =
  hasAudio :: bool
  audioSampleRate :: "int option"
  format_url :: string

record videoDetails =
  videoId :: string
  video_url :: string
  details_title :: string

record videoInfo =
  formats :: "videoFormat list"
  videoDetails :: videoDetails

text \<open>\<^verbatim>\<open>interface IVideoMeta\<close> (lines 88-96).\<close>

record IVideoMetaSource =
  asr :: int
  source_url :: string

record IVideoMeta =
  vm_id :: string
  vm_url :: string
  vm_title :: string
  vm_source :: IVideoMetaSource

text \<open>
  A record of the remote store, as \<^verbatim>\<open>loadResourceFromDatabase\<close> returns it:
  \<^verbatim>\<open>{ id, ...data }\<close>. Optional properties are \<open>None\<close> when \<^verbatim>\<open>undefined\<close>.
\<close>

record resourceRecord =
  rec_id :: string
  rec_title :: string
  videoUrl :: string
  rec_description :: "string option"
  author :: "string option"
  startTime :: "string option"
  duration :: "string option"

text \<open>
  \<^verbatim>\<open>interface IResourceMeta\<close> (lines 38-63). Two properties hold what the code
  assigns rather than what the interface declares: \<open>name\<close> receives \<^verbatim>\<open>record.author\<close>,
  which may be \<^verbatim>\<open>undefined\<close>, and \<open>src_startTime\<close> receives the raw
  \<^verbatim>\<open>record.startTime\<close>.
\<close>

record contributor =
  name :: "string option"
  link :: "string option"

record metaSource =
  src_url :: string
  src_title :: string
  src_startTime :: "string option"

record filemeta =
  md5 :: "string option"
  fm_size :: "int option"
  fm_duration :: "int option"

record IResourceMeta =
  meta_id :: string
  refId :: string
  title :: string
  filename :: string
  description :: "string option"
  contributor :: "contributor option"
  catalog :: "string option"
  tags :: "string list option"
  source :: metaSource
  language :: "(string \<times> string) list option"
  filemeta :: "filemeta option"

text \<open>\<^verbatim>\<open>interface IResourceIndex\<close> (lines 31-36).\<close>

record IResourceIndex =
  v :: int
  resources :: "string \<rightharpoonup> IResourceMeta"

text \<open>\<^verbatim>\<open>interface IDownloadAndEncodeOptions\<close> (lines 129-135).\<close>

record IDownloadAndEncodeOptions =
  opt_url :: string
  opt_output :: string
  opt_startTime :: "string option"
  opt_duration :: "string option"

section \<open>The environment and the state of a run\<close>

text \<open>
  The collaborators of the pipeline. \<open>getInfo\<close> takes the number of provider calls made
  so far, so that the provider may answer the same URL differently at different times.
  \<open>shell_exec\<close> runs a command given by its argument vector on the current files and
  returns the exit code and the files afterwards. \<open>UUIDv4 n\<close> is the identifier the
  generator hands out at its \<open>n\<close>-th call.
\<close>

record env =
  FFMPEG :: string
  tempDir :: string
  path_resolve :: "string \<Rightarrow> string \<Rightarrow> string"
  sanitizeFilename :: "string \<Rightarrow> string"
  getURLVideoID :: "string \<Rightarrow> error + string"
  getInfo :: "nat \<Rightarrow> string \<Rightarrow> error + videoInfo"
  shell_exec :: "string list \<Rightarrow> (string \<rightharpoonup> string) \<Rightarrow> int \<times> (string \<rightharpoonup> string)"
  UUIDv4 :: "nat \<Rightarrow> string"
  JSON_stringify :: "IResourceIndex \<Rightarrow> string"
  JSON_parse :: "string \<Rightarrow> error + IResourceIndex"
  loadResourceFromDatabase :: "error + resourceRecord list"

text \<open>
  The mutable state of \<^verbatim>\<open>downloadAudioclip\<close>: its two local objects
  (\<open>videoMetaCache\<close>, \<open>metaFile\<close>), the files on disk (path to content), and three
  observations of the outside world: the URLs passed to the provider's \<^verbatim>\<open>getInfo\<close>,
  the argument vectors passed to the encoder, and the number of identifiers drawn.
\<close>

record state =
  videoMetaCache :: "string \<rightharpoonup> IVideoMeta"
  metaFile :: IResourceIndex
  files :: "string \<rightharpoonup> string"
  providerCalls :: "string list"
  encoderCalls :: "string list list"
  uuids :: nat

section \<open>Stream resolution (\<^verbatim>\<open>getVideoMeta\<close>, lines 98-127)\<close>

text \<open>
  Modelled from the spec: lodash is not under \<^verbatim>\<open>src/\<close>. The specification has the
  resolver pick the stream with the numerically highest sample rate; lodash's
  \<^verbatim>\<open>maxBy(array, iteratee)\<close> is \<^verbatim>\<open>undefined\<close> on an empty array and otherwise the
  element with the greatest key, where a later element replaces the current one only when
  its key is strictly greater.
\<close>

fun maxBy_from :: "('a \<Rightarrow> int) \<Rightarrow> 'a \<Rightarrow> 'a list \<Rightarrow> 'a" where
  "maxBy_from f best [] = best"
| "maxBy_from f best (x # xs) = maxBy_from f (if f x > f best then x else best) xs"

definition maxBy :: "'a list \<Rightarrow> ('a \<Rightarrow> int) \<Rightarrow> 'a option" where
  "maxBy xs f = (case xs of [] \<Rightarrow> None | x # rest \<Rightarrow> Some (maxBy_from f x rest))"

text \<open>The iteratee \<^verbatim>\<open>(i) => +(i.audioSampleRate || 0)\<close>.\<close>

definition rateKey :: "videoFormat \<Rightarrow> int" where
  "rateKey i = (case audioSampleRate i of None \<Rightarrow> 0 | Some r \<Rightarrow> r)"

text \<open>Line 108.\<close>

definition bestFormat :: "videoFormat list \<Rightarrow> videoFormat option" where
  "bestFormat fs = maxBy (filter hasAudio fs) rateKey"

text \<open>
  Lines 108-120, after the provider has answered: \<^verbatim>\<open>throw new Error('no_format_found')\<close>
  when there is no best format or its sample rate is falsy, that is, not reported. The
  test of line 109 is on the provider's value, before the conversion of line 116.
  The property \<^verbatim>\<open>fetchedAt\<close> of the object literal is not part of
  \<^verbatim>\<open>IVideoMeta\<close> and is never read; it is left out.
\<close>

definition selectFormat :: "videoInfo \<Rightarrow> error + IVideoMeta" where
  "selectFormat info =
     (case bestFormat (formats info) of
        None \<Rightarrow> Inl NoFormatFound
      | Some b \<Rightarrow>
          (case audioSampleRate b of
             None \<Rightarrow> Inl NoFormatFound
           | Some r \<Rightarrow>
               Inr \<lparr> vm_id = videoId (videoDetails info),
                     vm_url = video_url (videoDetails info),
                     vm_title = details_title (videoDetails info),
                     vm_source = \<lparr> asr = r, source_url = format_url b \<rparr> \<rparr>))"

text \<open>
  \<^verbatim>\<open>getVideoMeta\<close>: every exception of the \<^verbatim>\<open>try\<close> block is caught and turned
  into \<^verbatim>\<open>null\<close>. The provider's \<^verbatim>\<open>getInfo\<close> is reached only when
  \<^verbatim>\<open>getURLVideoID\<close> did not throw.
\<close>

definition getVideoMeta :: "env \<Rightarrow> state \<Rightarrow> string \<Rightarrow> IVideoMeta option \<times> state" where
  "getVideoMeta E s u =
     (case getURLVideoID E u of
        Inl e \<Rightarrow> (None, s)
      | Inr vid \<Rightarrow>
          (let s' = s\<lparr> providerCalls := providerCalls s @ [u] \<rparr> in
           case getInfo E (length (providerCalls s)) u of
             Inl e \<Rightarrow> (None, s')
           | Inr info \<Rightarrow>
               (case selectFormat info of
                  Inl e \<Rightarrow> (None, s')
                | Inr vm \<Rightarrow> (Some vm, s'))))"

section \<open>The encoder (\<^verbatim>\<open>downloadAndEncode\<close>, lines 137-147)\<close>

text \<open>
  \<^verbatim>\<open>...(x ? [flag, x] : [])\<close>: an optional string is falsy when it is \<^verbatim>\<open>undefined\<close>
  or empty.
\<close>

definition optArg :: "string \<Rightarrow> string option \<Rightarrow> string list" where
  "optArg flag x = (case x of None \<Rightarrow> [] | Some t \<Rightarrow> if t = [] then [] else [flag, t])"

text \<open>
  The argument vector handed to \<^verbatim>\<open>shellescape\<close>, which quotes each element so that
  the shell passes exactly these arguments on.
\<close>

definition encodeArgs :: "env \<Rightarrow> IDownloadAndEncodeOptions \<Rightarrow> string list" where
  "encodeArgs E opts =
     [FFMPEG E, ''-hide_banner'', ''-nostdin'', ''-i'', opt_url opts]
     @ optArg ''-ss'' (opt_startTime opts)
     @ optArg ''-t'' (opt_duration opts)
     @ [''-vn'', ''-c:a'', ''libmp3lame'', opt_output opts]"

text \<open>
  The result of \<^verbatim>\<open>shell.exec\<close>, and with it the exit code, is dropped: the function
  returns nothing.
\<close>

definition downloadAndEncode :: "env \<Rightarrow> IDownloadAndEncodeOptions \<Rightarrow> state \<Rightarrow> state" where
  "downloadAndEncode E opts s =
     s\<lparr> files := snd (shell_exec E (encodeArgs E opts) (files s)),
        encoderCalls := encoderCalls s @ [encodeArgs E opts] \<rparr>"

section \<open>The loop of \<^verbatim>\<open>downloadAudioclip\<close> (lines 164-212)\<close>

text \<open>Line 168: \<^verbatim>\<open>videoMetaCache.get(videoUrl) || await getVideoMeta(videoUrl)\<close>.\<close>

definition resolveVideoMeta :: "env \<Rightarrow> state \<Rightarrow> string \<Rightarrow> IVideoMeta option \<times> state" where
  "resolveVideoMeta E s u =
     (case videoMetaCache s u of
        Some vm \<Rightarrow> (Some vm, s)
      | None \<Rightarrow> getVideoMeta E s u)"

text \<open>Line 178: \<^verbatim>\<open>sanitizeFilename(`${record.id}-${record.title}.mp3`)\<close>.\<close>

definition deriveFilename :: "env \<Rightarrow> resourceRecord \<Rightarrow> string" where
  "deriveFilename E r = sanitizeFilename E (rec_id r @ ''-'' @ rec_title r @ ''.mp3'')"

text \<open>Line 179: \<^verbatim>\<open>path.resolve(tempDir, filename)\<close>.\<close>

definition savePath :: "env \<Rightarrow> string \<Rightarrow> string" where
  "savePath E fn = path_resolve E (tempDir E) fn"

text \<open>Lines 193-207: the object literal \<^verbatim>\<open>meta\<close>; \<open>uid\<close> is the value of \<^verbatim>\<open>UUIDv4()\<close>.\<close>

definition newMeta :: "string \<Rightarrow> resourceRecord \<Rightarrow> IVideoMeta \<Rightarrow> string \<Rightarrow> IResourceMeta" where
  "newMeta uid r vm fn =
     \<lparr> meta_id = uid,
       refId = rec_id r,
       title = rec_title r,
       filename = fn,
       description = rec_description r,
       contributor = Some \<lparr> name = author r, link = None \<rparr>,
       catalog = None,
       tags = None,
       source = \<lparr> src_url = vm_url vm, src_title = rec_title r, src_startTime = startTime r \<rparr>,
       language = None,
       filemeta = None \<rparr>"

text \<open>Line 209: \<^verbatim>\<open>metaFile.resources[filename] = meta\<close>.\<close>

definition putResource :: "string \<Rightarrow> IResourceMeta \<Rightarrow> IResourceIndex \<Rightarrow> IResourceIndex" where
  "putResource fn m idx = idx\<lparr> resources := (resources idx)(fn \<mapsto> m) \<rparr>"

text \<open>Line 174: \<^verbatim>\<open>if (!videoMetaCache.has(videoUrl)) videoMetaCache.set(videoUrl, videoMeta)\<close>.\<close>

definition cacheMeta :: "string \<Rightarrow> IVideoMeta \<Rightarrow> state \<Rightarrow> state" where
  "cacheMeta u vm s =
     (if videoMetaCache s u = None
      then s\<lparr> videoMetaCache := (videoMetaCache s)(u \<mapsto> vm) \<rparr>
      else s)"

text \<open>
  One iteration of the \<^verbatim>\<open>for\<close> loop. The two \<^verbatim>\<open>continue\<close> statements are the
  branches that return the state without encoding.
\<close>

definition processRecord :: "env \<Rightarrow> state \<Rightarrow> resourceRecord \<Rightarrow> state" where
  "processRecord E s r =
     (case resolveVideoMeta E s (videoUrl r) of
        (None, s1) \<Rightarrow> s1
      | (Some vm, s1) \<Rightarrow>
          (let s2 = cacheMeta (videoUrl r) vm s1;
               fn = deriveFilename E r;
               sp = savePath E fn
           in if files s2 sp \<noteq> None then s2
              else
                (let s3 = downloadAndEncode E
                            \<lparr> opt_url = source_url (vm_source vm), opt_output = sp,
                              opt_startTime = startTime r, opt_duration = duration r \<rparr> s2;
                     meta = newMeta (UUIDv4 E (uuids s3)) r vm fn
                 in s3\<lparr> metaFile := putResource fn meta (metaFile s3),
                        uuids := Suc (uuids s3) \<rparr>)))"

fun processRecords :: "env \<Rightarrow> state \<Rightarrow> resourceRecord list \<Rightarrow> state" where
  "processRecords E s [] = s"
| "processRecords E s (r # rs) = processRecords E (processRecord E s r) rs"

section \<open>Loading and persisting the index (lines 161-162 and 214)\<close>

definition metaFilePath :: "env \<Rightarrow> string" where
  "metaFilePath E = path_resolve E (tempDir E) ''./meta.json''"

text \<open>
  Line 162: parse the file when it exists (a parse error escapes), otherwise start from
  the empty index of version 1.
\<close>

definition loadMetaFile :: "env \<Rightarrow> (string \<rightharpoonup> string) \<Rightarrow> error + IResourceIndex" where
  "loadMetaFile E fs =
     (case fs (metaFilePath E) of
        None \<Rightarrow> Inr \<lparr> v = 1, resources = Map.empty \<rparr>
      | Some txt \<Rightarrow> JSON_parse E txt)"

text \<open>Line 214.\<close>

definition writeMetaFile :: "env \<Rightarrow> IResourceIndex \<Rightarrow> (string \<rightharpoonup> string) \<Rightarrow> (string \<rightharpoonup> string)" where
  "writeMetaFile E idx fs = fs(metaFilePath E \<mapsto> JSON_stringify E idx)"

text \<open>
  \<^verbatim>\<open>downloadAudioclip\<close> as a whole, started in a world \<open>w\<close> of which it reads the
  files and extends the observations; its cache and index are local. Creating the
  directory \<^verbatim>\<open>tempDir\<close> is not modelled: the files are keyed by their full path.
\<close>

definition downloadAudioclip :: "env \<Rightarrow> state \<Rightarrow> error + state" where
  "downloadAudioclip E w =
     (case loadResourceFromDatabase E of
        Inl e \<Rightarrow> Inl e
      | Inr records \<Rightarrow>
          (case loadMetaFile E (files w) of
             Inl e \<Rightarrow> Inl e
           | Inr idx \<Rightarrow>
               (let s = processRecords E (w\<lparr> videoMetaCache := Map.empty, metaFile := idx \<rparr>) records
                in Inr (s\<lparr> files := writeMetaFile E (metaFile s) (files s) \<rparr>))))"

section \<open>The JSON codec of the index\<close>

text \<open>
  Modelled from the spec: \<^verbatim>\<open>JSON.stringify\<close> and \<^verbatim>\<open>JSON.parse\<close> (lines 162 and
  214) are built-ins of the runtime and not under \<^verbatim>\<open>src/\<close>. Section 6 of the
  specification has the persisted index be one JSON document of the schema
  \<^verbatim>\<open>{ v: 1, resources: { [filename]: ResourceMeta } }\<close>. The model covers the
  documents of that schema: whole numbers, strings, arrays and objects, written without
  white space as \<^verbatim>\<open>JSON.stringify\<close> writes them.
\<close>

datatype json = JNumber int | JString string | JArray "json list" | JObject "(string \<times> json) list"


subsection \<open>Numbers\<close>

text \<open>
  A whole number is written in decimal digits, with a minus sign when negative, and read
  back from the longest run of digits.
\<close>

definition isDigit :: "char \<Rightarrow> bool" where
  "isDigit c = (48 \<le> (of_char c :: nat) \<and> (of_char c :: nat) \<le> 57)"

definition digitChar :: "nat \<Rightarrow> char" where
  "digitChar d = char_of (48 + d)"

definition digitVal :: "char \<Rightarrow> nat" where
  "digitVal c = of_char c - 48"

fun showNat :: "nat \<Rightarrow> string" where
  "showNat n = (if n < 10 then [digitChar n] else showNat (n div 10) @ [digitChar (n mod 10)])"

declare showNat.simps [simp del]

definition readNat :: "string \<Rightarrow> nat" where
  "readNat ds = foldl (\<lambda>a c. 10 * a + digitVal c) 0 ds"

definition showInt :: "int \<Rightarrow> string" where
  "showInt i = (if i < 0 then CHR ''-'' # showNat (nat (- i)) else showNat (nat i))"

definition parseNat :: "string \<Rightarrow> (nat \<times> string) option" where
  "parseNat cs =
     (let ds = takeWhile isDigit cs
      in if ds = [] then None else Some (readNat ds, dropWhile isDigit cs))"

definition parseInt :: "string \<Rightarrow> (int \<times> string) option" where
  "parseInt cs =
     (case cs of
        [] \<Rightarrow> None
      | c # r \<Rightarrow>
          if c = CHR ''-'' then map_option (\<lambda>(n, rest). (- int n, rest)) (parseNat r)
          else map_option (\<lambda>(n, rest). (int n, rest)) (parseNat cs))"


subsection \<open>Strings\<close>

text \<open>
  A string is written between double quotes; the double quote and the backslash are
  escaped with a backslash, the control characters below \<open>0x20\<close> as \<^verbatim>\<open>\b \f \n \r \t\<close>
  or \<^verbatim>\<open>\u00XX\<close> with lower-case hexadecimal digits, and every other character stands
  for itself. Reading accepts these escapes, \<^verbatim>\<open>\/\<close> and upper-case digits as well, and
  rejects a raw control character.
\<close>

definition dq :: char where "dq = CHR 0x22"

definition bs :: char where "bs = CHR 0x5C"

definition hexDigit :: "nat \<Rightarrow> char" where
  "hexDigit d = (if d < 10 then char_of (48 + d) else char_of (87 + d))"

definition hexVal :: "char \<Rightarrow> nat option" where
  "hexVal c =
     (let n = (of_char c :: nat)
      in if 48 \<le> n \<and> n \<le> 57 then Some (n - 48)
         else if 97 \<le> n \<and> n \<le> 102 then Some (n - 87)
         else if 65 \<le> n \<and> n \<le> 70 then Some (n - 55)
         else None)"

definition hex4 :: "char \<Rightarrow> char \<Rightarrow> char \<Rightarrow> char \<Rightarrow> char option" where
  "hex4 a b c d =
     (case (hexVal a, hexVal b, hexVal c, hexVal d) of
        (Some w, Some x, Some y, Some z) \<Rightarrow>
          (let n = ((w * 16 + x) * 16 + y) * 16 + z
           in if n < 256 then Some (char_of n) else None)
      | _ \<Rightarrow> None)"

definition escapeChar :: "char \<Rightarrow> string" where
  "escapeChar c =
     (if c = dq then [bs, dq]
      else if c = bs then [bs, bs]
      else if c = CHR 0x08 then [bs, CHR ''b'']
      else if c = CHR 0x0C then [bs, CHR ''f'']
      else if c = CHR 0x0A then [bs, CHR ''n'']
      else if c = CHR 0x0D then [bs, CHR ''r'']
      else if c = CHR 0x09 then [bs, CHR ''t'']
      else if (of_char c :: nat) < 32
        then [bs, CHR ''u'', CHR ''0'', CHR ''0'',
              hexDigit ((of_char c :: nat) div 16), hexDigit ((of_char c :: nat) mod 16)]
      else [c])"

definition quote :: "string \<Rightarrow> string" where
  "quote t = dq # concat (map escapeChar t) @ [dq]"

definition unescapeChar :: "char \<Rightarrow> char option" where
  "unescapeChar e =
     (if e = dq then Some dq
      else if e = bs then Some bs
      else if e = CHR ''/'' then Some (CHR ''/'')
      else if e = CHR ''b'' then Some (CHR 0x08)
      else if e = CHR ''f'' then Some (CHR 0x0C)
      else if e = CHR ''n'' then Some (CHR 0x0A)
      else if e = CHR ''r'' then Some (CHR 0x0D)
      else if e = CHR ''t'' then Some (CHR 0x09)
      else None)"

fun unquote :: "string \<Rightarrow> (string \<times> string) option" where
  "unquote [] = None"
| "unquote (c # cs) =
     (if c = dq then Some ([], cs)
      else if c = bs then
        (case cs of
           [] \<Rightarrow> None
         | e # cs1 \<Rightarrow>
             if e = CHR ''u'' then
               (case cs1 of
                  h1 # h2 # h3 # h4 # cs2 \<Rightarrow>
                    (case hex4 h1 h2 h3 h4 of
                       None \<Rightarrow> None
                     | Some ch \<Rightarrow> map_option (\<lambda>(t, rest). (ch # t, rest)) (unquote cs2))
                | _ \<Rightarrow> None)
             else
               (case unescapeChar e of
                  None \<Rightarrow> None
                | Some ch \<Rightarrow> map_option (\<lambda>(t, rest). (ch # t, rest)) (unquote cs1)))
      else if (of_char c :: nat) < 32 then None
      else map_option (\<lambda>(t, rest). (c # t, rest)) (unquote cs))"


subsection \<open>Documents\<close>

text \<open>
  Arrays and objects are written with commas between their elements and a colon after
  each property name.
\<close>

fun render :: "json \<Rightarrow> string"
  and renderElems :: "json list \<Rightarrow> string"
  and renderMembers :: "(string \<times> json) list \<Rightarrow> string" where
  "render (JNumber n) = showInt n"
| "render (JString t) = quote t"
| "render (JArray xs) = CHR ''['' # renderElems xs"
| "render (JObject kvs) = CHR ''{'' # renderMembers kvs"
| "renderElems [] = '']''"
| "renderElems (x # xs) = render x @ (if xs = [] then [] else '','') @ renderElems xs"
| "renderMembers [] = ''}''"
| "renderMembers ((k, x) # kvs) =
     quote k @ '':'' @ render x @ (if kvs = [] then [] else '','') @ renderMembers kvs"


text \<open>
  The parser is a recursive descent over the text. Its first argument bounds the number
  of nested calls; \<open>jsonParse\<close> gives it the length of the text, which is enough for
  every text (each call consumes a character), and requires that the whole text is
  consumed.
\<close>

fun parseValue :: "nat \<Rightarrow> string \<Rightarrow> (json \<times> string) option"
  and parseElems :: "nat \<Rightarrow> string \<Rightarrow> (json list \<times> string) option"
  and parseMembers :: "nat \<Rightarrow> string \<Rightarrow> ((string \<times> json) list \<times> string) option" where
  "parseValue 0 cs = None"
| "parseValue (Suc f) [] = None"
| "parseValue (Suc f) (c # cs) =
     (if c = CHR ''['' then
        (case cs of
           [] \<Rightarrow> None
         | d # r \<Rightarrow>
             if d = CHR '']'' then Some (JArray [], r)
             else map_option (\<lambda>(xs, rest). (JArray xs, rest)) (parseElems f cs))
      else if c = CHR ''{'' then
        (case cs of
           [] \<Rightarrow> None
         | d # r \<Rightarrow>
             if d = CHR ''}'' then Some (JObject [], r)
             else map_option (\<lambda>(kvs, rest). (JObject kvs, rest)) (parseMembers f cs))
      else if c = dq then map_option (\<lambda>(t, rest). (JString t, rest)) (unquote cs)
      else map_option (\<lambda>(n, rest). (JNumber n, rest)) (parseInt (c # cs)))"
| "parseElems 0 cs = None"
| "parseElems (Suc f) cs =
     (case parseValue f cs of
        None \<Rightarrow> None
      | Some (x, r) \<Rightarrow>
          (case r of
             [] \<Rightarrow> None
           | d # r1 \<Rightarrow>
               if d = CHR '','' then map_option (\<lambda>(xs, rest). (x # xs, rest)) (parseElems f r1)
               else if d = CHR '']'' then Some ([x], r1)
               else None))"
| "parseMembers 0 cs = None"
| "parseMembers (Suc f) cs =
     (case cs of
        [] \<Rightarrow> None
      | q # cs1 \<Rightarrow>
          if q \<noteq> dq then None
          else
            (case unquote cs1 of
               None \<Rightarrow> None
             | Some (k, r) \<Rightarrow>
                 (case r of
                    [] \<Rightarrow> None
                  | colon # r1 \<Rightarrow>
                      if colon \<noteq> CHR '':'' then None
                      else
                        (case parseValue f r1 of
                           None \<Rightarrow> None
                         | Some (x, r2) \<Rightarrow>
                             (case r2 of
                                [] \<Rightarrow> None
                              | d # r3 \<Rightarrow>
                                  if d = CHR '','' then
                                    map_option (\<lambda>(kvs, rest). ((k, x) # kvs, rest)) (parseMembers f r3)
                                  else if d = CHR ''}'' then Some ([(k, x)], r3)
                                  else None)))))"

definition jsonParse :: "string \<Rightarrow> json option" where
  "jsonParse txt =
     (case parseValue (length txt) txt of
        None \<Rightarrow> None
      | Some (j, rest) \<Rightarrow> if rest = [] then Some j else None)"


subsection \<open>The index as a document\<close>

text \<open>
  \<^verbatim>\<open>JSON.stringify\<close> writes the properties of an object in the order of their
  creation and leaves out a property whose value is \<^verbatim>\<open>undefined\<close>. The order within
  an entry is that of the object literal of lines 193-207, followed by the remaining
  properties of \<^verbatim>\<open>IResourceMeta\<close>.
\<close>

definition opt :: "string \<Rightarrow> ('a \<Rightarrow> json) \<Rightarrow> 'a option \<Rightarrow> (string \<times> json) list" where
  "opt k f x = (case x of None \<Rightarrow> [] | Some y \<Rightarrow> [(k, f y)])"

definition sourceToJSON :: "metaSource \<Rightarrow> json" where
  "sourceToJSON x =
     JObject ([(''url'', JString (src_url x))]
              @ opt ''startTime'' JString (src_startTime x)
              @ [(''title'', JString (src_title x))])"

definition contributorToJSON :: "contributor \<Rightarrow> json" where
  "contributorToJSON c = JObject (opt ''name'' JString (name c) @ opt ''link'' JString (link c))"

definition filemetaToJSON :: "filemeta \<Rightarrow> json" where
  "filemetaToJSON x =
     JObject (opt ''md5'' JString (md5 x) @ opt ''size'' JNumber (fm_size x)
              @ opt ''duration'' JNumber (fm_duration x))"

definition tagsToJSON :: "string list \<Rightarrow> json" where
  "tagsToJSON ts = JArray (map JString ts)"

definition languageToJSON :: "(string \<times> string) list \<Rightarrow> json" where
  "languageToJSON l = JObject (map (\<lambda>(k, t). (k, JString t)) l)"

definition metaToJSON :: "IResourceMeta \<Rightarrow> json" where
  "metaToJSON m =
     JObject ([(''id'', JString (meta_id m)), (''refId'', JString (refId m)),
               (''title'', JString (title m)), (''filename'', JString (filename m))]
              @ opt ''description'' JString (description m)
              @ [(''source'', sourceToJSON (source m))]
              @ opt ''contributor'' contributorToJSON (contributor m)
              @ opt ''catalog'' JString (catalog m)
              @ opt ''tags'' tagsToJSON (tags m)
              @ opt ''language'' languageToJSON (language m)
              @ opt ''filemeta'' filemetaToJSON (filemeta m))"


text \<open>
  The map \<open>resources\<close> does not record the order in which its filenames were added;
  \<open>ks\<close> is that order. A filename of \<open>ks\<close> without an entry writes nothing.
\<close>

definition entriesToJSON :: "string list \<Rightarrow> (string \<rightharpoonup> IResourceMeta) \<Rightarrow> (string \<times> json) list" where
  "entriesToJSON ks res =
     concat (map (\<lambda>k. case res k of None \<Rightarrow> [] | Some m \<Rightarrow> [(k, metaToJSON m)]) ks)"

definition indexToJSON :: "string list \<Rightarrow> IResourceIndex \<Rightarrow> json" where
  "indexToJSON ks idx =
     JObject [(''v'', JNumber (v idx)), (''resources'', JObject (entriesToJSON ks (resources idx)))]"


text \<open>
  Reading a property of a parsed object: of two properties of the same name
  \<^verbatim>\<open>JSON.parse\<close> keeps the last. A required property must be there and have the right
  type; an optional one may be missing, which reads as \<^verbatim>\<open>undefined\<close>.
\<close>

definition lookup :: "string \<Rightarrow> (string \<times> json) list \<Rightarrow> json option" where
  "lookup k kvs = map_of (rev kvs) k"

definition asString :: "json \<Rightarrow> string option" where
  "asString j = (case j of JString t \<Rightarrow> Some t | _ \<Rightarrow> None)"

definition asNumber :: "json \<Rightarrow> int option" where
  "asNumber j = (case j of JNumber n \<Rightarrow> Some n | _ \<Rightarrow> None)"

definition required :: "(json \<Rightarrow> 'a option) \<Rightarrow> json option \<Rightarrow> 'a option" where
  "required f x = (case x of None \<Rightarrow> None | Some j \<Rightarrow> f j)"

definition optional :: "(json \<Rightarrow> 'a option) \<Rightarrow> json option \<Rightarrow> 'a option option" where
  "optional f x = (case x of None \<Rightarrow> Some None | Some j \<Rightarrow> map_option Some (f j))"

definition sourceFromJSON :: "json \<Rightarrow> metaSource option" where
  "sourceFromJSON j =
     (case j of
        JObject kvs \<Rightarrow>
          Option.bind (required asString (lookup ''url'' kvs)) (\<lambda>u.
          Option.bind (optional asString (lookup ''startTime'' kvs)) (\<lambda>st.
          Option.bind (required asString (lookup ''title'' kvs)) (\<lambda>t.
          Some \<lparr> src_url = u, src_title = t, src_startTime = st \<rparr>)))
      | _ \<Rightarrow> None)"

definition contributorFromJSON :: "json \<Rightarrow> contributor option" where
  "contributorFromJSON j =
     (case j of
        JObject kvs \<Rightarrow>
          Option.bind (optional asString (lookup ''name'' kvs)) (\<lambda>n.
          Option.bind (optional asString (lookup ''link'' kvs)) (\<lambda>l.
          Some \<lparr> name = n, link = l \<rparr>))
      | _ \<Rightarrow> None)"

definition filemetaFromJSON :: "json \<Rightarrow> filemeta option" where
  "filemetaFromJSON j =
     (case j of
        JObject kvs \<Rightarrow>
          Option.bind (optional asString (lookup ''md5'' kvs)) (\<lambda>h.
          Option.bind (optional asNumber (lookup ''size'' kvs)) (\<lambda>n.
          Option.bind (optional asNumber (lookup ''duration'' kvs)) (\<lambda>d.
          Some \<lparr> md5 = h, fm_size = n, fm_duration = d \<rparr>)))
      | _ \<Rightarrow> None)"

definition tagsFromJSON :: "json \<Rightarrow> string list option" where
  "tagsFromJSON j = (case j of JArray xs \<Rightarrow> those (map asString xs) | _ \<Rightarrow> None)"

definition languageFromJSON :: "json \<Rightarrow> (string \<times> string) list option" where
  "languageFromJSON j =
     (case j of
        JObject kvs \<Rightarrow> those (map (\<lambda>(k, x). map_option (Pair k) (asString x)) kvs)
      | _ \<Rightarrow> None)"

definition metaFromJSON :: "json \<Rightarrow> IResourceMeta option" where
  "metaFromJSON j =
     (case j of
        JObject kvs \<Rightarrow>
          Option.bind (required asString (lookup ''id'' kvs)) (\<lambda>i.
          Option.bind (required asString (lookup ''refId'' kvs)) (\<lambda>r.
          Option.bind (required asString (lookup ''title'' kvs)) (\<lambda>t.
          Option.bind (required asString (lookup ''filename'' kvs)) (\<lambda>fn.
          Option.bind (optional asString (lookup ''description'' kvs)) (\<lambda>d.
          Option.bind (required sourceFromJSON (lookup ''source'' kvs)) (\<lambda>src.
          Option.bind (optional contributorFromJSON (lookup ''contributor'' kvs)) (\<lambda>c.
          Option.bind (optional asString (lookup ''catalog'' kvs)) (\<lambda>cat.
          Option.bind (optional tagsFromJSON (lookup ''tags'' kvs)) (\<lambda>ts.
          Option.bind (optional languageFromJSON (lookup ''language'' kvs)) (\<lambda>l.
          Option.bind (optional filemetaFromJSON (lookup ''filemeta'' kvs)) (\<lambda>fm.
          Some \<lparr> meta_id = i, refId = r, title = t, filename = fn, description = d,
                 contributor = c, catalog = cat, tags = ts, source = src, language = l,
                 filemeta = fm \<rparr>)))))))))))
      | _ \<Rightarrow> None)"

fun entriesFromJSON :: "(string \<times> json) list \<Rightarrow> (string \<rightharpoonup> IResourceMeta) option" where
  "entriesFromJSON [] = Some Map.empty"
| "entriesFromJSON ((k, j) # kvs) =
     (case metaFromJSON j of
        None \<Rightarrow> None
      | Some m \<Rightarrow>
          (case entriesFromJSON kvs of
             None \<Rightarrow> None
           | Some res \<Rightarrow> Some ([k \<mapsto> m] ++ res)))"

definition resourcesFromJSON :: "json \<Rightarrow> (string \<rightharpoonup> IResourceMeta) option" where
  "resourcesFromJSON j = (case j of JObject kvs \<Rightarrow> entriesFromJSON kvs | _ \<Rightarrow> None)"

definition indexFromJSON :: "json \<Rightarrow> IResourceIndex option" where
  "indexFromJSON j =
     (case j of
        JObject kvs \<Rightarrow>
          Option.bind (required asNumber (lookup ''v'' kvs)) (\<lambda>n.
          Option.bind (required resourcesFromJSON (lookup ''resources'' kvs)) (\<lambda>res.
          Some \<lparr> v = n, resources = res \<rparr>))
      | _ \<Rightarrow> None)"


text \<open>
  Modelled from the spec: the two operations of section 4.3, \<open>index.persist\<close>
  serializing the full index and \<open>index.load\<close> reading it back, as
  \<^verbatim>\<open>JSON.stringify(metaFile)\<close> and \<^verbatim>\<open>JSON.parse\<close> perform them on a value of
  \<^verbatim>\<open>IResourceIndex\<close>. A text that is no JSON document makes \<^verbatim>\<open>JSON.parse\<close> throw; a
  document that does not fit \<^verbatim>\<open>IResourceIndex\<close> has no value in the model and is
  rejected as well.
\<close>

definition stringifyIndex :: "string list \<Rightarrow> IResourceIndex \<Rightarrow> string" where
  "stringifyIndex ks idx = render (indexToJSON ks idx)"

definition parseIndex :: "string \<Rightarrow> error + IResourceIndex" where
  "parseIndex txt =
     (case jsonParse txt of
        None \<Rightarrow> Inl SyntaxError
      | Some j \<Rightarrow> (case indexFromJSON j of None \<Rightarrow> Inl SyntaxError | Some idx \<Rightarrow> Inr idx))"


subsection \<open>Measures used in the proofs about the codec\<close>

text \<open>
  What may follow a number in a text, the number of nested parser calls a document needs,
  and the choice between two lookups.
\<close>

definition endsNumber :: "string \<Rightarrow> bool" where
  "endsNumber rest = (case rest of [] \<Rightarrow> True | c # cs \<Rightarrow> \<not> isDigit c)"

fun cost :: "json \<Rightarrow> nat"
  and costElems :: "json list \<Rightarrow> nat"
  and costMembers :: "(string \<times> json) list \<Rightarrow> nat" where
  "cost (JNumber n) = 1"
| "cost (JString t) = 1"
| "cost (JArray xs) = Suc (costElems xs)"
| "cost (JObject kvs) = Suc (costMembers kvs)"
| "costElems [] = 0"
| "costElems (x # xs) = Suc (cost x + costElems xs)"
| "costMembers [] = 0"
| "costMembers ((k, x) # kvs) = Suc (cost x + costMembers kvs)"

definition orElse :: "'a option \<Rightarrow> 'a option \<Rightarrow> 'a option" where
  "orElse a b = (case a of None \<Rightarrow> b | Some y \<Rightarrow> Some y)"


section \<open>A concrete environment\<close>

text \<open>
  Modelled from the spec: the \<^verbatim>\<open>sanitize-filename\<close> package is not under
  \<^verbatim>\<open>src/\<close>. The specification has it strip the characters that are illegal in file
  names; these are the slash, the backslash and \<^verbatim>\<open>? < > : * | "\<close>. The package's
  further rules (control characters, reserved names, trailing dots, truncation to 255
  bytes) are left out.
\<close>

definition illegalChars :: "char list" where
  "illegalChars = [CHR ''/'', CHR ''?'', CHR ''<'', CHR ''>'', CHR 0x5C, CHR '':'',
                   CHR ''*'', CHR ''|'', CHR 0x22]"

definition stripIllegal :: "string \<Rightarrow> string" where
  "stripIllegal t = filter (\<lambda>c. c \<notin> set illegalChars) t"

text \<open>The three streams of the specification's selection example.\<close>

definition exampleFormats :: "videoFormat list" where
  "exampleFormats =
     [\<lparr> hasAudio = True, audioSampleRate = Some 44100, format_url = ''https://stream/abc.low'' \<rparr>,
      \<lparr> hasAudio = True, audioSampleRate = Some 48000, format_url = ''https://stream/abc.audio'' \<rparr>,
      \<lparr> hasAudio = False, audioSampleRate = Some 96000, format_url = ''https://stream/abc.video'' \<rparr>]"

definition exampleInfo :: videoInfo where
  "exampleInfo =
     \<lparr> formats = exampleFormats,
       videoDetails = \<lparr> videoId = ''abc'', video_url = ''https://host/watch/abc'',
                        details_title = ''Original Title'' \<rparr> \<rparr>"

text \<open>
  An environment in which the provider knows one URL and always answers with
  \<open>exampleInfo\<close>, the encoder writes its output file and exits with 0, paths are joined
  with a slash, and the JSON codec is the one of the empty index.
\<close>

definition exampleEnv :: env where
  "exampleEnv =
     \<lparr> FFMPEG = ''ffmpeg'',
       tempDir = ''/work/.temp'',
       path_resolve = (\<lambda>d f. d @ ''/'' @ f),
       sanitizeFilename = stripIllegal,
       getURLVideoID = (\<lambda>u. if u = ''https://host/abc'' then Inr ''abc'' else Inl InvalidUrl),
       getInfo = (\<lambda>n u. Inr exampleInfo),
       shell_exec = (\<lambda>argv fs. (0, fs(last argv \<mapsto> ''mp3''))),
       UUIDv4 = (\<lambda>n. ''uuid-'' @ replicate n (CHR ''i'')),
       JSON_stringify = (\<lambda>idx. ''{\"v\":1,\"resources\":{}}''),
       JSON_parse = (\<lambda>txt. Inr \<lparr> v = 1, resources = Map.empty \<rparr>),
       loadResourceFromDatabase = Inr [] \<rparr>"

text \<open>The record of the specification's end-to-end scenario.\<close>

definition exampleRecord :: resourceRecord where
  "exampleRecord =
     \<lparr> rec_id = ''r1'', rec_title = ''Test/Clip'', videoUrl = ''https://host/abc'',
       rec_description = None, author = None, startTime = Some ''10'', duration = Some ''5'' \<rparr>"

text \<open>The state at the start of a first run: nothing cached, indexed, stored or called.\<close>

definition initialState :: state where
  "initialState =
     \<lparr> videoMetaCache = Map.empty, metaFile = \<lparr> v = 1, resources = Map.empty \<rparr>,
       files = Map.empty, providerCalls = [], encoderCalls = [], uuids = 0 \<rparr>"

text \<open>What the provider's answer resolves to: the 48000 Hz stream.\<close>

definition exampleMeta :: IVideoMeta where
  "exampleMeta =
     \<lparr> vm_id = ''abc'', vm_url = ''https://host/watch/abc'', vm_title = ''Original Title'',
       vm_source = \<lparr> asr = 48000, source_url = ''https://stream/abc.audio'' \<rparr> \<rparr>"

text \<open>
  A state as a second run finds it when the file of an earlier run has been removed: the
  loaded index holds an entry for the derived filename of \<open>exampleRecord\<close>, and no file
  is on disk.
\<close>

definition staleMeta :: IResourceMeta where
  "staleMeta =
     \<lparr> meta_id = ''uuid-of-an-earlier-run'', refId = ''r1'', title = ''Test/Clip'',
       filename = ''r1-TestClip.mp3'', description = None,
       contributor = Some \<lparr> name = None, link = None \<rparr>, catalog = None, tags = None,
       source = \<lparr> src_url = ''https://host/watch/abc'', src_title = ''Test/Clip'',
                  src_startTime = Some ''10'' \<rparr>,
       language = None, filemeta = None \<rparr>"

definition staleState :: state where
  "staleState =
     initialState\<lparr> metaFile := \<lparr> v = 1, resources = [''r1-TestClip.mp3'' \<mapsto> staleMeta] \<rparr> \<rparr>"

text \<open>The same first run, but with the output file of \<open>exampleRecord\<close> already on disk.\<close>

definition presentState :: state where
  "presentState = initialState\<lparr> files := [''/work/.temp/r1-TestClip.mp3'' \<mapsto> ''mp3''] \<rparr>"

text \<open>A second record with the same source URL as \<open>exampleRecord\<close>.\<close>

definition secondRecord :: resourceRecord where
  "secondRecord = exampleRecord\<lparr> rec_id := ''r2'', rec_title := ''Other Clip'' \<rparr>"

text \<open>A record whose source URL the provider's \<^verbatim>\<open>getURLVideoID\<close> does not accept.\<close>

definition unparsableRecord :: resourceRecord where
  "unparsableRecord = exampleRecord\<lparr> rec_id := ''r3'', videoUrl := ''not a video url'' \<rparr>"

text \<open>A provider whose \<^verbatim>\<open>getInfo\<close> rejects (network error, video unavailable).\<close>

definition unreachableEnv :: env where
  "unreachableEnv = exampleEnv\<lparr> getInfo := (\<lambda>n u. Inl ProviderError) \<rparr>"

text \<open>
  A provider that returns two audio streams: the first reports no sample rate, the
  second reports the string \<^verbatim>\<open>'0'\<close>.
\<close>

definition tiedEnv :: env where
  "tiedEnv =
     exampleEnv\<lparr> getInfo := (\<lambda>n u. Inr (exampleInfo\<lparr> formats :=
       [\<lparr> hasAudio = True, audioSampleRate = None, format_url = ''https://stream/abc.first'' \<rparr>,
        \<lparr> hasAudio = True, audioSampleRate = Some 0, format_url = ''https://stream/abc.second'' \<rparr>] \<rparr>)) \<rparr>"

text \<open>
  A provider that returns an audio stream without a reported sample rate and a video
  stream of 96000 Hz.
\<close>

definition unratedEnv :: env where
  "unratedEnv =
     exampleEnv\<lparr> getInfo := (\<lambda>n u. Inr (exampleInfo\<lparr> formats :=
       [\<lparr> hasAudio = True, audioSampleRate = None, format_url = ''https://stream/abc.audio'' \<rparr>,
        \<lparr> hasAudio = False, audioSampleRate = Some 96000, format_url = ''https://stream/abc.video'' \<rparr>] \<rparr>)) \<rparr>"

text \<open>
  A record that differs from \<open>exampleRecord\<close> in its title only and derives the same
  filename, the colon being stripped like the slash.
\<close>

definition collidingRecord :: resourceRecord where
  "collidingRecord = exampleRecord\<lparr> rec_title := ''Test:Clip'' \<rparr>"

text \<open>An encoder that fails: it exits with 1 and writes nothing.\<close>

definition failingEnv :: env where
  "failingEnv = exampleEnv\<lparr> shell_exec := (\<lambda>argv fs. (1, fs)) \<rparr>"

text \<open>A later run in good order: the entry of the earlier run and its file are both there.\<close>

definition settledState :: state where
  "settledState = staleState\<lparr> files := [''/work/.temp/r1-TestClip.mp3'' \<mapsto> ''mp3''] \<rparr>"

text \<open>The remote store of the end-to-end scenario holds the one record.\<close>

definition scenarioEnv :: env where
  "scenarioEnv = exampleEnv\<lparr> loadResourceFromDatabase := Inr [exampleRecord] \<rparr>"

text \<open>
  An environment whose JSON codec is the modelled one; it writes the entries of the
  filenames of the two example records, in this order.
\<close>

definition jsonEnv :: env where
  "jsonEnv =
     exampleEnv\<lparr> JSON_stringify := stringifyIndex [''r1-TestClip.mp3'', ''r2-Other Clip.mp3''],
                  JSON_parse := parseIndex \<rparr>"

section \<open>The failure conditions as the specification words them\<close>

text \<open>
  Section 4.2 of the specification lists when resolution fails: the URL cannot be parsed
  as a supported source identifier; the provider returns no streams carrying audio; or
  every audio-carrying stream lacks a reported sample rate. This predicate is that list,
  to be compared with \<open>getVideoMeta\<close>.
\<close>

definition specResolutionFails :: "env \<Rightarrow> state \<Rightarrow> string \<Rightarrow> bool" where
  "specResolutionFails E s u =
     (case getURLVideoID E u of
        Inl e \<Rightarrow> True
      | Inr vid \<Rightarrow>
          (case getInfo E (length (providerCalls s)) u of
             Inl e \<Rightarrow> False
           | Inr info \<Rightarrow>
               list_all (\<lambda>i. \<not> hasAudio i) (formats info)
               \<or> list_all (\<lambda>i. audioSampleRate i = None) (filter hasAudio (formats info))))"

section \<open>Stream selection\<close>

lemma maxBy_from_mem: "maxBy_from f b xs \<in> set (b # xs)"
  by (induction xs arbitrary: b) auto

lemma maxBy_from_ge: "y \<in> set (b # xs) \<Longrightarrow> f y \<le> f (maxBy_from f b xs)"
proof (induction xs arbitrary: b y)
  case Nil
  then show ?case by simp
next
  case (Cons x xs)
  define b' where "b' = (if f x > f b then x else b)"
  have step: "maxBy_from f b (x # xs) = maxBy_from f b' xs"
    by (simp add: b'_def)
  have b': "f b \<le> f b'" "f x \<le> f b'"
    by (simp_all add: b'_def)
  have top: "f b' \<le> f (maxBy_from f b' xs)"
    using Cons.IH [of b' b'] by simp
  from Cons.prems consider "y = b" | "y = x" | "y \<in> set xs" by auto
  then show ?case
  proof cases
    case 1
    with b'(1) top step show ?thesis by simp
  next
    case 2
    with b'(2) top step show ?thesis by simp
  next
    case 3
    then have "f y \<le> f (maxBy_from f b' xs)"
      using Cons.IH [of y b'] by simp
    with step show ?thesis by simp
  qed
qed

lemma maxBy_None: "maxBy xs f = None \<longleftrightarrow> xs = []"
  by (simp add: maxBy_def split: list.splits)

lemma maxBy_Some_mem: "maxBy xs f = Some b \<Longrightarrow> b \<in> set xs"
  using maxBy_from_mem by (fastforce simp: maxBy_def split: list.splits)

lemma maxBy_Some_ge: "maxBy xs f = Some b \<Longrightarrow> y \<in> set xs \<Longrightarrow> f y \<le> f b"
  using maxBy_from_ge by (fastforce simp: maxBy_def split: list.splits)

lemma bestFormat_None: "bestFormat fs = None \<longleftrightarrow> (\<forall>i \<in> set fs. \<not> hasAudio i)"
  by (simp add: bestFormat_def maxBy_None filter_empty_conv)

lemma bestFormat_Some:
  assumes "bestFormat fs = Some b"
  shows "b \<in> set fs" and "hasAudio b"
    and "\<And>i. i \<in> set fs \<Longrightarrow> hasAudio i \<Longrightarrow> rateKey i \<le> rateKey b"
proof -
  from assms have m: "maxBy (filter hasAudio fs) rateKey = Some b"
    by (simp add: bestFormat_def)
  from maxBy_Some_mem [OF m] show "b \<in> set fs" and "hasAudio b" by simp_all
  fix i assume "i \<in> set fs" "hasAudio i"
  then have "i \<in> set (filter hasAudio fs)" by simp
  with maxBy_Some_ge [OF m] show "rateKey i \<le> rateKey b" by blast
qed

lemma selectFormat_Inr:
  "selectFormat info = Inr vm \<Longrightarrow>
     \<exists>b. bestFormat (formats info) = Some b \<and> audioSampleRate b = Some (asr (vm_source vm))
        \<and> source_url (vm_source vm) = format_url b
        \<and> vm_url vm = video_url (videoDetails info)"
  by (auto simp: selectFormat_def split: option.splits if_splits)

lemma getVideoMeta_Some:
  "getVideoMeta E s u = (Some vm, s') \<Longrightarrow>
     \<exists>vid info. getURLVideoID E u = Inr vid \<and> getInfo E (length (providerCalls s)) u = Inr info
        \<and> selectFormat info = Inr vm \<and> s' = s\<lparr> providerCalls := providerCalls s @ [u] \<rparr>"
  by (auto simp: getVideoMeta_def Let_def split: sum.splits)

lemma selectFormat_fails:
  "(\<exists>e. selectFormat info = Inl e) \<longleftrightarrow>
     (\<forall>i \<in> set (formats info). \<not> hasAudio i)
     \<or> (\<exists>b. bestFormat (formats info) = Some b \<and> audioSampleRate b = None)"
proof (cases "bestFormat (formats info)")
  case None
  then show ?thesis
    using bestFormat_None [of "formats info"] by (simp add: selectFormat_def)
next
  case (Some b)
  with bestFormat_Some(1,2) [OF Some] show ?thesis
    by (auto simp: selectFormat_def split: option.splits)
qed

lemma unreported_rateKey: "audioSampleRate i = None \<Longrightarrow> rateKey i = 0"
  by (simp add: rateKey_def)

lemma selectFormat_succeeds:
  assumes "i \<in> set (formats info)" "hasAudio i" "0 < rateKey i"
  shows "\<not> (\<exists>e. selectFormat info = Inl e)"
proof
  assume "\<exists>e. selectFormat info = Inl e"
  with assms(1,2) obtain b where b: "bestFormat (formats info) = Some b" "audioSampleRate b = None"
    unfolding selectFormat_fails by blast
  from bestFormat_Some(3) [OF b(1) assms(1,2)] unreported_rateKey [OF b(2)] assms(3)
  show False by simp
qed

text \<open>
  When every reported rate is positive, the selected stream lacks a rate exactly when
  all streams with audio do.
\<close>

lemma selected_unreported_iff:
  assumes pos: "\<forall>i \<in> set fs. \<forall>r. audioSampleRate i = Some r \<longrightarrow> 0 < r"
  shows "(\<exists>b. bestFormat fs = Some b \<and> audioSampleRate b = None) \<longleftrightarrow>
         (\<exists>i \<in> set fs. hasAudio i) \<and> (\<forall>i \<in> set fs. hasAudio i \<longrightarrow> audioSampleRate i = None)"
proof
  assume "\<exists>b. bestFormat fs = Some b \<and> audioSampleRate b = None"
  then obtain b where b: "bestFormat fs = Some b" "audioSampleRate b = None" by blast
  have "audioSampleRate i = None" if i: "i \<in> set fs" "hasAudio i" for i
  proof (cases "audioSampleRate i")
    case None
    then show ?thesis .
  next
    case (Some r)
    with pos i(1) have "0 < rateKey i" by (simp add: rateKey_def)
    with bestFormat_Some(3) [OF b(1) i] unreported_rateKey [OF b(2)] show ?thesis by simp
  qed
  with bestFormat_Some(1,2) [OF b(1)]
  show "(\<exists>i \<in> set fs. hasAudio i) \<and> (\<forall>i \<in> set fs. hasAudio i \<longrightarrow> audioSampleRate i = None)"
    by blast
next
  assume r: "(\<exists>i \<in> set fs. hasAudio i) \<and> (\<forall>i \<in> set fs. hasAudio i \<longrightarrow> audioSampleRate i = None)"
  then have "bestFormat fs \<noteq> None" by (simp add: bestFormat_None)
  then obtain b where b: "bestFormat fs = Some b" by blast
  with r bestFormat_Some(1,2) [OF b] show "\<exists>b. bestFormat fs = Some b \<and> audioSampleRate b = None"
    by blast
qed

lemma getVideoMeta_None:
  "fst (getVideoMeta E s u) = None \<longleftrightarrow>
     (case getURLVideoID E u of
        Inl e \<Rightarrow> True
      | Inr vid \<Rightarrow>
          (case getInfo E (length (providerCalls s)) u of
             Inl e \<Rightarrow> True
           | Inr info \<Rightarrow> (\<exists>e. selectFormat info = Inl e)))"
  by (simp add: getVideoMeta_def Let_def split: sum.splits)

text \<open>
  C1. Whenever stream resolution succeeds, the stream it selected is one of the streams
  the provider returned with \<open>hasAudio\<close> true, and no stream with \<open>hasAudio\<close> true has a
  higher sample rate (an unreported rate counting as 0); streams without audio are not
  candidates, whatever their rate. And it does succeed whenever the URL parses, the
  provider answers, and some stream with audio reports a positive rate. The witness is
  the example of the specification: of the streams 44100 Hz with audio, 48000 Hz with
  audio and 96000 Hz without audio, the 48000 Hz stream is selected.
\<close>

theorem getVideoMeta_selects_highest_audio_rate:
  "(getVideoMeta E s u = (Some vm, s') \<longrightarrow>
      (\<exists>vid info b. getURLVideoID E u = Inr vid
           \<and> getInfo E (length (providerCalls s)) u = Inr info
           \<and> b \<in> set (formats info) \<and> hasAudio b
           \<and> audioSampleRate b = Some (asr (vm_source vm))
           \<and> format_url b = source_url (vm_source vm)
           \<and> (\<forall>i \<in> set (formats info). hasAudio i \<longrightarrow> rateKey i \<le> asr (vm_source vm))))
   \<and> (getURLVideoID E u = Inr vid' \<and> getInfo E (length (providerCalls s)) u = Inr info'
        \<and> (\<exists>i \<in> set (formats info'). hasAudio i \<and> 0 < rateKey i)
      \<longrightarrow> fst (getVideoMeta E s u) \<noteq> None)"
proof -
  have selected: "\<exists>vid info b. getURLVideoID E u = Inr vid
           \<and> getInfo E (length (providerCalls s)) u = Inr info
           \<and> b \<in> set (formats info) \<and> hasAudio b
           \<and> audioSampleRate b = Some (asr (vm_source vm))
           \<and> format_url b = source_url (vm_source vm)
           \<and> (\<forall>i \<in> set (formats info). hasAudio i \<longrightarrow> rateKey i \<le> asr (vm_source vm))"
    if run: "getVideoMeta E s u = (Some vm, s')"
  proof -
    from getVideoMeta_Some [OF run] obtain vid info where
      p: "getURLVideoID E u = Inr vid" "getInfo E (length (providerCalls s)) u = Inr info"
      and sel: "selectFormat info = Inr vm" by blast
    from selectFormat_Inr [OF sel] obtain b where
      b: "bestFormat (formats info) = Some b" "audioSampleRate b = Some (asr (vm_source vm))"
         "source_url (vm_source vm) = format_url b" by blast
    from b(2) have k: "rateKey b = asr (vm_source vm)" by (simp add: rateKey_def)
    have "\<forall>i \<in> set (formats info). hasAudio i \<longrightarrow> rateKey i \<le> asr (vm_source vm)"
      using bestFormat_Some(3) [OF b(1)] k by auto
    with p b bestFormat_Some(1,2) [OF b(1)] show ?thesis by auto
  qed
  have succeeds: "fst (getVideoMeta E s u) \<noteq> None"
    if p: "getURLVideoID E u = Inr vid'" "getInfo E (length (providerCalls s)) u = Inr info'"
      and i: "\<exists>i \<in> set (formats info'). hasAudio i \<and> 0 < rateKey i"
  proof -
    from i have "\<not> (\<exists>e. selectFormat info' = Inl e)"
      using selectFormat_succeeds by blast
    with p show ?thesis
      by (simp add: getVideoMeta_None)
  qed
  from selected succeeds show ?thesis by blast
qed

theorem getVideoMeta_selects_highest_audio_rate_witness:
  "getVideoMeta exampleEnv initialState ''https://host/abc'' =
     (Some \<lparr> vm_id = ''abc'', vm_url = ''https://host/watch/abc'', vm_title = ''Original Title'',
              vm_source = \<lparr> asr = 48000, source_url = ''https://stream/abc.audio'' \<rparr> \<rparr>,
      initialState\<lparr> providerCalls := [''https://host/abc''] \<rparr>)
   \<and> (\<exists>b. b \<in> set exampleFormats \<and> hasAudio b \<and> audioSampleRate b = Some 48000
          \<and> format_url b = ''https://stream/abc.audio''
          \<and> (\<forall>i \<in> set exampleFormats. hasAudio i \<longrightarrow> rateKey i \<le> 48000))
   \<and> getURLVideoID exampleEnv ''https://host/abc'' = Inr ''abc''
   \<and> getInfo exampleEnv (length (providerCalls initialState)) ''https://host/abc'' = Inr exampleInfo
   \<and> (\<exists>i \<in> set (formats exampleInfo). hasAudio i \<and> 0 < rateKey i)
   \<and> fst (getVideoMeta exampleEnv initialState ''https://host/abc'') \<noteq> None"
proof -
  have run: "getVideoMeta exampleEnv initialState ''https://host/abc'' =
     (Some \<lparr> vm_id = ''abc'', vm_url = ''https://host/watch/abc'', vm_title = ''Original Title'',
              vm_source = \<lparr> asr = 48000, source_url = ''https://stream/abc.audio'' \<rparr> \<rparr>,
      initialState\<lparr> providerCalls := [''https://host/abc''] \<rparr>)"
    by (simp add: getVideoMeta_def exampleEnv_def initialState_def selectFormat_def
        bestFormat_def maxBy_def exampleInfo_def exampleFormats_def rateKey_def)
  have info: "getInfo exampleEnv n u = Inr exampleInfo" for n u
    by (simp add: exampleEnv_def)
  have fs: "formats exampleInfo = exampleFormats"
    by (simp add: exampleInfo_def)
  from getVideoMeta_selects_highest_audio_rate [THEN conjunct1, rule_format, OF run] info fs
  have "\<exists>b. b \<in> set exampleFormats \<and> hasAudio b \<and> audioSampleRate b = Some 48000
          \<and> format_url b = ''https://stream/abc.audio''
          \<and> (\<forall>i \<in> set exampleFormats. hasAudio i \<longrightarrow> rateKey i \<le> 48000)"
    by auto
  moreover have p: "getURLVideoID exampleEnv ''https://host/abc'' = Inr ''abc''"
    "getInfo exampleEnv (length (providerCalls initialState)) ''https://host/abc'' = Inr exampleInfo"
    by (simp_all add: exampleEnv_def)
  moreover have a: "\<exists>i \<in> set (formats exampleInfo). hasAudio i \<and> 0 < rateKey i"
    by (simp add: exampleInfo_def exampleFormats_def rateKey_def)
  moreover have "fst (getVideoMeta exampleEnv initialState ''https://host/abc'') \<noteq> None"
    using getVideoMeta_selects_highest_audio_rate [THEN conjunct2, rule_format, OF conjI [OF p(1) conjI [OF p(2) a]]]
    by simp
  ultimately show ?thesis using run by blast
qed

section \<open>The loop body, branch by branch\<close>

lemma getVideoMeta_frame:
  "snd (getVideoMeta E s u) = s\<lparr> providerCalls := providerCalls (snd (getVideoMeta E s u)) \<rparr>"
  by (simp add: getVideoMeta_def Let_def split: sum.splits)

lemma resolveVideoMeta_frame:
  "snd (resolveVideoMeta E s u) = s\<lparr> providerCalls := providerCalls (snd (resolveVideoMeta E s u)) \<rparr>"
  using getVideoMeta_frame [of E s u]
  by (simp add: resolveVideoMeta_def split: option.splits)

lemma resolveVideoMeta_fields:
  "videoMetaCache (snd (resolveVideoMeta E s u)) = videoMetaCache s"
  "metaFile (snd (resolveVideoMeta E s u)) = metaFile s"
  "files (snd (resolveVideoMeta E s u)) = files s"
  "encoderCalls (snd (resolveVideoMeta E s u)) = encoderCalls s"
  "uuids (snd (resolveVideoMeta E s u)) = uuids s"
  by (subst resolveVideoMeta_frame, simp)+

lemma cacheMeta_fields:
  "metaFile (cacheMeta u vm s) = metaFile s"
  "files (cacheMeta u vm s) = files s"
  "encoderCalls (cacheMeta u vm s) = encoderCalls s"
  "providerCalls (cacheMeta u vm s) = providerCalls s"
  "uuids (cacheMeta u vm s) = uuids s"
  by (simp_all add: cacheMeta_def)

text \<open>First \<^verbatim>\<open>continue\<close>: resolution failed.\<close>

lemma processRecord_failed:
  assumes "fst (resolveVideoMeta E s (videoUrl r)) = None"
  shows "processRecord E s r = snd (resolveVideoMeta E s (videoUrl r))"
  using assms by (cases "resolveVideoMeta E s (videoUrl r)") (simp add: processRecord_def)

text \<open>Second \<^verbatim>\<open>continue\<close>: the file is already there.\<close>

lemma processRecord_present:
  assumes "fst (resolveVideoMeta E s (videoUrl r)) = Some vm"
    and "files s (savePath E (deriveFilename E r)) \<noteq> None"
  shows "processRecord E s r = cacheMeta (videoUrl r) vm (snd (resolveVideoMeta E s (videoUrl r)))"
proof -
  obtain s1 where r: "resolveVideoMeta E s (videoUrl r) = (Some vm, s1)"
    using assms(1) by (cases "resolveVideoMeta E s (videoUrl r)") simp
  have "files s1 = files s"
    using resolveVideoMeta_fields(3) [of E s "videoUrl r"] r by simp
  with assms(2) r show ?thesis
    by (simp add: processRecord_def Let_def cacheMeta_fields)
qed

text \<open>Otherwise the record is encoded and indexed.\<close>

lemma processRecord_encoded:
  assumes "fst (resolveVideoMeta E s (videoUrl r)) = Some vm"
    and "files s (savePath E (deriveFilename E r)) = None"
  shows "processRecord E s r =
     (let s3 = downloadAndEncode E
                 \<lparr> opt_url = source_url (vm_source vm), opt_output = savePath E (deriveFilename E r),
                   opt_startTime = startTime r, opt_duration = duration r \<rparr>
                 (cacheMeta (videoUrl r) vm (snd (resolveVideoMeta E s (videoUrl r))))
      in s3\<lparr> metaFile := putResource (deriveFilename E r)
                 (newMeta (UUIDv4 E (uuids s3)) r vm (deriveFilename E r)) (metaFile s3),
             uuids := Suc (uuids s3) \<rparr>)"
proof -
  obtain s1 where r: "resolveVideoMeta E s (videoUrl r) = (Some vm, s1)"
    using assms(1) by (cases "resolveVideoMeta E s (videoUrl r)") simp
  have "files s1 = files s"
    using resolveVideoMeta_fields(3) [of E s "videoUrl r"] r by simp
  with assms(2) r show ?thesis
    by (simp add: processRecord_def Let_def cacheMeta_fields)
qed

lemma processRecord_encoded_fields:
  assumes "fst (resolveVideoMeta E s (videoUrl r)) = Some vm"
    and "files s (savePath E (deriveFilename E r)) = None"
  shows "metaFile (processRecord E s r) =
           putResource (deriveFilename E r)
             (newMeta (UUIDv4 E (uuids s)) r vm (deriveFilename E r)) (metaFile s)"
    and "encoderCalls (processRecord E s r) =
           encoderCalls s @ [encodeArgs E \<lparr> opt_url = source_url (vm_source vm),
              opt_output = savePath E (deriveFilename E r),
              opt_startTime = startTime r, opt_duration = duration r \<rparr>]"
    and "files (processRecord E s r) =
           snd (shell_exec E (encodeArgs E \<lparr> opt_url = source_url (vm_source vm),
              opt_output = savePath E (deriveFilename E r),
              opt_startTime = startTime r, opt_duration = duration r \<rparr>) (files s))"
    and "uuids (processRecord E s r) = Suc (uuids s)"
    and "providerCalls (processRecord E s r) = providerCalls (snd (resolveVideoMeta E s (videoUrl r)))"
  by (simp_all add: processRecord_encoded [OF assms] Let_def downloadAndEncode_def
      cacheMeta_fields resolveVideoMeta_fields)

lemma resolveVideoMeta_shell_exec:
  "fst (resolveVideoMeta (E\<lparr> shell_exec := x \<rparr>) s u) = fst (resolveVideoMeta E s u)"
  by (simp add: resolveVideoMeta_def getVideoMeta_def Let_def split: option.splits sum.splits)

text \<open>The example, evaluated.\<close>

lemma example_getVideoMeta:
  "getVideoMeta exampleEnv (s\<lparr> providerCalls := [] \<rparr>) ''https://host/abc'' =
     (Some exampleMeta, s\<lparr> providerCalls := [''https://host/abc''] \<rparr>)"
  by (simp add: getVideoMeta_def exampleEnv_def selectFormat_def bestFormat_def maxBy_def
      exampleInfo_def exampleFormats_def rateKey_def exampleMeta_def)

lemma example_filename: "deriveFilename exampleEnv exampleRecord = ''r1-TestClip.mp3''"
  by (simp add: deriveFilename_def exampleEnv_def exampleRecord_def stripIllegal_def
      illegalChars_def)

lemma example_savePath: "savePath exampleEnv fn = ''/work/.temp/'' @ fn"
  by (simp add: savePath_def exampleEnv_def)

lemma example_resolve_initial:
  "resolveVideoMeta exampleEnv initialState ''https://host/abc'' =
     (Some exampleMeta, initialState\<lparr> providerCalls := [''https://host/abc''] \<rparr>)"
  using example_getVideoMeta [of initialState]
  by (simp add: resolveVideoMeta_def initialState_def)

lemma example_resolve_stale:
  "resolveVideoMeta exampleEnv staleState ''https://host/abc'' =
     (Some exampleMeta, staleState\<lparr> providerCalls := [''https://host/abc''] \<rparr>)"
  using example_getVideoMeta [of staleState]
  by (simp add: resolveVideoMeta_def staleState_def initialState_def)

lemma example_videoUrl: "videoUrl exampleRecord = ''https://host/abc''"
  by (simp add: exampleRecord_def)

section \<open>Index insertion\<close>

text \<open>
  C2. A record that reaches the encode step (its resolution succeeded and no file exists
  at the derived path) gets exactly one index entry: the index afterwards is the index
  before with the derived filename bound to a new entry, whose \<open>refId\<close> is the record's
  id and whose id is the next draw of the UUID generator (different from every earlier
  draw when the generator never repeats itself). The index is the same whatever the
  encoder does and whatever exit code it returns.
\<close>

theorem encode_step_inserts_one_entry:
  assumes "fst (resolveVideoMeta E s (videoUrl r)) = Some vm"
    and "files s (savePath E (deriveFilename E r)) = None"
  shows "\<exists>m. resources (metaFile (processRecord E s r)) = (resources (metaFile s))(deriveFilename E r \<mapsto> m)
           \<and> v (metaFile (processRecord E s r)) = v (metaFile s)
           \<and> refId m = rec_id r
           \<and> meta_id m = UUIDv4 E (uuids s)
           \<and> uuids (processRecord E s r) = Suc (uuids s)
           \<and> (inj (UUIDv4 E) \<longrightarrow> (\<forall>n < uuids s. UUIDv4 E n \<noteq> meta_id m))
           \<and> (\<forall>x. metaFile (processRecord (E\<lparr> shell_exec := x \<rparr>) s r) = metaFile (processRecord E s r))"
proof -
  let ?fn = "deriveFilename E r"
  let ?m = "newMeta (UUIDv4 E (uuids s)) r vm ?fn"
  have idx: "metaFile (processRecord E s r) = putResource ?fn ?m (metaFile s)"
    by (rule processRecord_encoded_fields(1) [OF assms])
  have any: "metaFile (processRecord (E\<lparr> shell_exec := x \<rparr>) s r) = putResource ?fn ?m (metaFile s)" for x
  proof -
    have a: "fst (resolveVideoMeta (E\<lparr> shell_exec := x \<rparr>) s (videoUrl r)) = Some vm"
      using assms(1) by (simp add: resolveVideoMeta_shell_exec)
    have b: "files s (savePath (E\<lparr> shell_exec := x \<rparr>) (deriveFilename (E\<lparr> shell_exec := x \<rparr>) r)) = None"
      using assms(2) by (simp add: savePath_def deriveFilename_def)
    from processRecord_encoded_fields(1) [OF a b] show ?thesis
      by (simp add: deriveFilename_def)
  qed
  have fresh: "inj (UUIDv4 E) \<longrightarrow> (\<forall>n < uuids s. UUIDv4 E n \<noteq> meta_id ?m)"
    by (auto simp: newMeta_def dest: injD)
  have "resources (metaFile (processRecord E s r)) = (resources (metaFile s))(?fn \<mapsto> ?m)"
    and "v (metaFile (processRecord E s r)) = v (metaFile s)"
    by (simp_all add: idx putResource_def)
  moreover have "refId ?m = rec_id r" "meta_id ?m = UUIDv4 E (uuids s)"
    by (simp_all add: newMeta_def)
  moreover note processRecord_encoded_fields(4) [OF assms] fresh
  moreover have "\<forall>x. metaFile (processRecord (E\<lparr> shell_exec := x \<rparr>) s r) = metaFile (processRecord E s r)"
    using any idx by simp
  ultimately show ?thesis by blast
qed

theorem encode_step_inserts_one_entry_witness:
  "fst (resolveVideoMeta exampleEnv initialState (videoUrl exampleRecord)) = Some exampleMeta
   \<and> files initialState (savePath exampleEnv (deriveFilename exampleEnv exampleRecord)) = None
   \<and> (\<exists>m. resources (metaFile (processRecord exampleEnv initialState exampleRecord)) =
             [''r1-TestClip.mp3'' \<mapsto> m]
          \<and> refId m = ''r1'' \<and> meta_id m = ''uuid-''
          \<and> metaFile (processRecord (exampleEnv\<lparr> shell_exec := (\<lambda>argv fs. (1, fs)) \<rparr>)
                         initialState exampleRecord) =
             metaFile (processRecord exampleEnv initialState exampleRecord))"
proof -
  have h1: "fst (resolveVideoMeta exampleEnv initialState (videoUrl exampleRecord)) = Some exampleMeta"
    by (simp add: example_videoUrl example_resolve_initial)
  have h2: "files initialState (savePath exampleEnv (deriveFilename exampleEnv exampleRecord)) = None"
    by (simp add: initialState_def)
  have c: "resources (metaFile initialState) = Map.empty" "uuids initialState = 0"
    "rec_id exampleRecord = ''r1''" "UUIDv4 exampleEnv 0 = ''uuid-''"
    by (simp_all add: initialState_def exampleRecord_def exampleEnv_def)
  from encode_step_inserts_one_entry [OF h1 h2] obtain m where
    m: "resources (metaFile (processRecord exampleEnv initialState exampleRecord)) =
          (resources (metaFile initialState))(deriveFilename exampleEnv exampleRecord \<mapsto> m)"
       "refId m = rec_id exampleRecord" "meta_id m = UUIDv4 exampleEnv (uuids initialState)"
       "\<forall>x. metaFile (processRecord (exampleEnv\<lparr> shell_exec := x \<rparr>) initialState exampleRecord) =
            metaFile (processRecord exampleEnv initialState exampleRecord)"
    by blast
  from m(1,2,3) have "resources (metaFile (processRecord exampleEnv initialState exampleRecord)) =
             [''r1-TestClip.mp3'' \<mapsto> m] \<and> refId m = ''r1'' \<and> meta_id m = ''uuid-''"
    by (simp add: c example_filename)
  with m(4) h1 h2 show ?thesis by blast
qed

text \<open>
  C10. Every index entry a step creates or changes is the entry of the processed record
  at its derived filename, and its fields are: \<open>source.url\<close> the resolved video's URL
  (the provider's canonical \<^verbatim>\<open>video_url\<close> when the resolution was not a cache hit),
  \<open>source.title\<close> the record's title, \<open>source.startTime\<close> the record's raw start time,
  \<open>contributor\<close> present with \<open>name\<close> equal to the record's author, absent or not, and
  \<open>catalog\<close>, \<open>tags\<close>, \<open>language\<close> and \<open>filemeta\<close> unset.
\<close>

theorem created_entry_fields:
  assumes "resources (metaFile (processRecord E s r)) k \<noteq> resources (metaFile s) k"
  shows "\<exists>vm m. fst (resolveVideoMeta E s (videoUrl r)) = Some vm
           \<and> k = deriveFilename E r
           \<and> resources (metaFile (processRecord E s r)) k = Some m
           \<and> src_url (source m) = vm_url vm
           \<and> (videoMetaCache s (videoUrl r) = None \<longrightarrow>
                (\<exists>info. getInfo E (length (providerCalls s)) (videoUrl r) = Inr info
                   \<and> vm_url vm = video_url (videoDetails info)))
           \<and> src_title (source m) = rec_title r
           \<and> src_startTime (source m) = startTime r
           \<and> contributor m = Some \<lparr> name = author r, link = None \<rparr>
           \<and> catalog m = None \<and> tags m = None \<and> language m = None \<and> filemeta m = None"
proof (cases "fst (resolveVideoMeta E s (videoUrl r))")
  case None
  from processRecord_failed [OF None] assms show ?thesis
    by (simp add: resolveVideoMeta_fields)
next
  case (Some vm)
  show ?thesis
  proof (cases "files s (savePath E (deriveFilename E r))")
    case present: (Some content)
    then have "files s (savePath E (deriveFilename E r)) \<noteq> None" by simp
    from processRecord_present [OF Some this] assms show ?thesis
      by (simp add: cacheMeta_fields resolveVideoMeta_fields)
  next
    case None
    let ?fn = "deriveFilename E r"
    let ?m = "newMeta (UUIDv4 E (uuids s)) r vm ?fn"
    have idx: "resources (metaFile (processRecord E s r)) = (resources (metaFile s))(?fn \<mapsto> ?m)"
      by (simp add: processRecord_encoded_fields(1) [OF Some None] putResource_def)
    with assms have k: "k = ?fn" by (auto split: if_splits)
    have canon: "videoMetaCache s (videoUrl r) = None \<longrightarrow>
                (\<exists>info. getInfo E (length (providerCalls s)) (videoUrl r) = Inr info
                   \<and> vm_url vm = video_url (videoDetails info))"
    proof
      assume miss: "videoMetaCache s (videoUrl r) = None"
      with Some have "fst (getVideoMeta E s (videoUrl r)) = Some vm"
        by (simp add: resolveVideoMeta_def)
      then obtain s' where "getVideoMeta E s (videoUrl r) = (Some vm, s')"
        by (cases "getVideoMeta E s (videoUrl r)") simp
      from getVideoMeta_Some [OF this] obtain info where
        "getInfo E (length (providerCalls s)) (videoUrl r) = Inr info" "selectFormat info = Inr vm"
        by blast
      with selectFormat_Inr [of info vm] show "\<exists>info. getInfo E (length (providerCalls s)) (videoUrl r) = Inr info
                   \<and> vm_url vm = video_url (videoDetails info)" by blast
    qed
    have entry: "resources (metaFile (processRecord E s r)) k = Some ?m"
      using idx k by simp
    show ?thesis
      apply (rule exI [of _ vm])
      apply (rule exI [of _ ?m])
      using Some k canon entry by (simp add: newMeta_def)
  qed
qed

theorem created_entry_fields_witness:
  "resources (metaFile (processRecord exampleEnv initialState exampleRecord)) ''r1-TestClip.mp3''
     \<noteq> resources (metaFile initialState) ''r1-TestClip.mp3''
   \<and> (\<exists>m. resources (metaFile (processRecord exampleEnv initialState exampleRecord)) ''r1-TestClip.mp3'' = Some m
          \<and> src_url (source m) = ''https://host/watch/abc''
          \<and> src_title (source m) = ''Test/Clip''
          \<and> src_startTime (source m) = Some ''10''
          \<and> contributor m = Some \<lparr> name = None, link = None \<rparr>
          \<and> catalog m = None \<and> tags m = None \<and> language m = None \<and> filemeta m = None)"
proof -
  have h1: "fst (resolveVideoMeta exampleEnv initialState (videoUrl exampleRecord)) = Some exampleMeta"
    by (simp add: example_videoUrl example_resolve_initial)
  have h2: "files initialState (savePath exampleEnv (deriveFilename exampleEnv exampleRecord)) = None"
    by (simp add: initialState_def)
  have new: "resources (metaFile (processRecord exampleEnv initialState exampleRecord)) ''r1-TestClip.mp3'' \<noteq> None"
    by (simp add: processRecord_encoded_fields(1) [OF h1 h2] putResource_def example_filename)
  have old: "resources (metaFile initialState) ''r1-TestClip.mp3'' = None"
    by (simp add: initialState_def)
  from new old have h: "resources (metaFile (processRecord exampleEnv initialState exampleRecord)) ''r1-TestClip.mp3''
     \<noteq> resources (metaFile initialState) ''r1-TestClip.mp3''"
    by simp
  have c: "vm_url exampleMeta = ''https://host/watch/abc''" "rec_title exampleRecord = ''Test/Clip''"
    "startTime exampleRecord = Some ''10''" "author exampleRecord = None"
    by (simp_all add: exampleMeta_def exampleRecord_def)
  from created_entry_fields [OF h] obtain vm m where
    m: "fst (resolveVideoMeta exampleEnv initialState (videoUrl exampleRecord)) = Some vm"
       "resources (metaFile (processRecord exampleEnv initialState exampleRecord)) ''r1-TestClip.mp3'' = Some m"
       "src_url (source m) = vm_url vm" "src_title (source m) = rec_title exampleRecord"
       "src_startTime (source m) = startTime exampleRecord"
       "contributor m = Some \<lparr> name = author exampleRecord, link = None \<rparr>"
       "catalog m = None" "tags m = None" "language m = None" "filemeta m = None"
    by blast
  from m(1) h1 have "vm = exampleMeta" by simp
  with m c have "\<exists>m. resources (metaFile (processRecord exampleEnv initialState exampleRecord)) ''r1-TestClip.mp3'' = Some m
          \<and> src_url (source m) = ''https://host/watch/abc''
          \<and> src_title (source m) = ''Test/Clip''
          \<and> src_startTime (source m) = Some ''10''
          \<and> contributor m = Some \<lparr> name = None, link = None \<rparr>
          \<and> catalog m = None \<and> tags m = None \<and> language m = None \<and> filemeta m = None"
    by simp
  with h show ?thesis by blast
qed

section \<open>What a step does to the provider log and the cache\<close>

lemma getVideoMeta_providerCalls:
  "providerCalls (snd (getVideoMeta E s u)) =
     (case getURLVideoID E u of Inl e \<Rightarrow> providerCalls s | Inr vid \<Rightarrow> providerCalls s @ [u])"
  by (simp add: getVideoMeta_def Let_def split: sum.splits)

lemma resolveVideoMeta_providerCalls:
  "providerCalls (snd (resolveVideoMeta E s u)) =
     (case videoMetaCache s u of
        Some vm \<Rightarrow> providerCalls s
      | None \<Rightarrow> (case getURLVideoID E u of Inl e \<Rightarrow> providerCalls s | Inr vid \<Rightarrow> providerCalls s @ [u]))"
  by (simp add: resolveVideoMeta_def getVideoMeta_providerCalls split: option.splits)

lemma example_resolve_present:
  "resolveVideoMeta exampleEnv presentState ''https://host/abc'' =
     (Some exampleMeta, presentState\<lparr> providerCalls := [''https://host/abc''] \<rparr>)"
  using example_getVideoMeta [of presentState]
  by (simp add: resolveVideoMeta_def presentState_def initialState_def)

lemma processRecord_providerCalls:
  "providerCalls (processRecord E s r) = providerCalls (snd (resolveVideoMeta E s (videoUrl r)))"
proof (cases "fst (resolveVideoMeta E s (videoUrl r))")
  case None
  then show ?thesis by (simp add: processRecord_failed)
next
  case (Some vm)
  show ?thesis
  proof (cases "files s (savePath E (deriveFilename E r)) = None")
    case True
    then show ?thesis by (rule processRecord_encoded_fields(5) [OF Some])
  next
    case False
    then show ?thesis by (simp add: processRecord_present [OF Some] cacheMeta_fields)
  qed
qed

lemma processRecord_videoMetaCache:
  "videoMetaCache (processRecord E s r) =
     (case fst (resolveVideoMeta E s (videoUrl r)) of
        None \<Rightarrow> videoMetaCache s
      | Some vm \<Rightarrow> videoMetaCache (cacheMeta (videoUrl r) vm s))"
proof (cases "fst (resolveVideoMeta E s (videoUrl r))")
  case None
  then show ?thesis by (simp add: processRecord_failed resolveVideoMeta_fields)
next
  case (Some vm)
  have c: "videoMetaCache (cacheMeta (videoUrl r) vm (snd (resolveVideoMeta E s (videoUrl r)))) =
           videoMetaCache (cacheMeta (videoUrl r) vm s)"
    by (simp add: cacheMeta_def resolveVideoMeta_fields)
  show ?thesis
  proof (cases "files s (savePath E (deriveFilename E r)) = None")
    case True
    then show ?thesis
      by (simp add: processRecord_encoded [OF Some] Let_def downloadAndEncode_def c Some)
  next
    case False
    then show ?thesis by (simp add: processRecord_present [OF Some] c Some)
  qed
qed

lemma cache_kept:
  "videoMetaCache s u = Some vm \<Longrightarrow> videoMetaCache (processRecord E s r) u = Some vm"
  by (auto simp: processRecord_videoMetaCache cacheMeta_def split: option.splits)

lemma cache_filled:
  "fst (resolveVideoMeta E s (videoUrl r)) \<noteq> None \<Longrightarrow>
     videoMetaCache (processRecord E s r) (videoUrl r) \<noteq> None"
  by (auto simp: processRecord_videoMetaCache cacheMeta_def split: option.splits)

lemma cached_step_no_call:
  assumes "videoMetaCache s u \<noteq> None"
  shows "count_list (providerCalls (processRecord E s r)) u = count_list (providerCalls s) u"
  using assms
  by (auto simp: processRecord_providerCalls resolveVideoMeta_providerCalls
      split: option.splits sum.splits)

lemma cached_run_no_call:
  "videoMetaCache s u \<noteq> None \<Longrightarrow>
     count_list (providerCalls (processRecords E s rs)) u = count_list (providerCalls s) u"
proof (induction rs arbitrary: s)
  case Nil
  then show ?case by simp
next
  case (Cons r rs)
  from Cons.prems obtain vm where "videoMetaCache s u = Some vm" by auto
  then have "videoMetaCache (processRecord E s r) u \<noteq> None"
    by (simp add: cache_kept)
  from Cons.IH [OF this] cached_step_no_call [OF Cons.prems] show ?case by simp
qed

lemma step_at_most_one_call:
  "count_list (providerCalls (processRecord E s r)) u
     \<le> count_list (providerCalls s) u + (if videoUrl r = u then 1 else 0)"
  by (auto simp: processRecord_providerCalls resolveVideoMeta_providerCalls
      split: option.splits sum.splits)

lemma run_at_most_one_call_per_record:
  "count_list (providerCalls (processRecords E s rs)) u
     \<le> count_list (providerCalls s) u + count_list (map videoUrl rs) u"
proof (induction rs arbitrary: s)
  case Nil
  then show ?case by simp
next
  case (Cons r rs)
  have "count_list (providerCalls (processRecords E s (r # rs))) u
          \<le> count_list (providerCalls (processRecord E s r)) u + count_list (map videoUrl rs) u"
    using Cons.IH [of "processRecord E s r"] by simp
  also have "\<dots> \<le> count_list (providerCalls s) u + (if videoUrl r = u then 1 else 0)
                  + count_list (map videoUrl rs) u"
    using step_at_most_one_call [of E s r u] by simp
  finally show ?case by (simp split: if_splits)
qed

lemma example_encodeArgs:
  "encodeArgs exampleEnv \<lparr> opt_url = source_url (vm_source exampleMeta),
      opt_output = savePath exampleEnv (deriveFilename exampleEnv exampleRecord),
      opt_startTime = startTime exampleRecord, opt_duration = duration exampleRecord \<rparr> =
   [''ffmpeg'', ''-hide_banner'', ''-nostdin'', ''-i'', ''https://stream/abc.audio'',
    ''-ss'', ''10'', ''-t'', ''5'', ''-vn'', ''-c:a'', ''libmp3lame'',
    ''/work/.temp/r1-TestClip.mp3'']"
proof -
  have "FFMPEG exampleEnv = ''ffmpeg''"
    "startTime exampleRecord = Some ''10''" "duration exampleRecord = Some ''5''"
    "source_url (vm_source exampleMeta) = ''https://stream/abc.audio''"
    by (simp_all add: exampleEnv_def exampleRecord_def exampleMeta_def)
  then show ?thesis
    by (simp add: encodeArgs_def optArg_def example_filename example_savePath)
qed

lemma unreachable_getVideoMeta:
  "getVideoMeta unreachableEnv s ''https://host/abc'' =
     (None, s\<lparr> providerCalls := providerCalls s @ [''https://host/abc''] \<rparr>)"
  by (simp add: getVideoMeta_def unreachableEnv_def exampleEnv_def)

section \<open>Skipping\<close>

text \<open>
  C4, as the code has it. For a record whose derived file already exists on disk, stream
  resolution is still performed first (a cache lookup and, on a miss, a call of the
  provider; a result is cached); then the record is skipped: the encoder is not invoked,
  the files are unchanged, and the index is not modified.
\<close>

theorem existing_file_skips_encode_after_resolution:
  assumes "files s (savePath E (deriveFilename E r)) \<noteq> None"
  shows "processRecord E s r =
           (case fst (resolveVideoMeta E s (videoUrl r)) of
              None \<Rightarrow> snd (resolveVideoMeta E s (videoUrl r))
            | Some vm \<Rightarrow> cacheMeta (videoUrl r) vm (snd (resolveVideoMeta E s (videoUrl r))))
       \<and> encoderCalls (processRecord E s r) = encoderCalls s
       \<and> files (processRecord E s r) = files s
       \<and> metaFile (processRecord E s r) = metaFile s
       \<and> uuids (processRecord E s r) = uuids s
       \<and> providerCalls (processRecord E s r) =
           (case videoMetaCache s (videoUrl r) of
              Some vm \<Rightarrow> providerCalls s
            | None \<Rightarrow> (case getURLVideoID E (videoUrl r) of
                         Inl e \<Rightarrow> providerCalls s
                       | Inr vid \<Rightarrow> providerCalls s @ [videoUrl r]))"
proof (cases "fst (resolveVideoMeta E s (videoUrl r))")
  case None
  from processRecord_failed [OF None] show ?thesis
    by (simp add: None resolveVideoMeta_fields resolveVideoMeta_providerCalls)
next
  case (Some vm)
  from processRecord_present [OF Some assms] show ?thesis
    by (simp add: Some cacheMeta_fields resolveVideoMeta_fields resolveVideoMeta_providerCalls)
qed

theorem existing_file_skips_encode_after_resolution_witness:
  "files presentState (savePath exampleEnv (deriveFilename exampleEnv exampleRecord)) \<noteq> None
   \<and> encoderCalls (processRecord exampleEnv presentState exampleRecord) = []
   \<and> files (processRecord exampleEnv presentState exampleRecord) = files presentState
   \<and> metaFile (processRecord exampleEnv presentState exampleRecord) = \<lparr> v = 1, resources = Map.empty \<rparr>
   \<and> providerCalls (processRecord exampleEnv presentState exampleRecord) = [''https://host/abc'']"
proof -
  have h: "files presentState (savePath exampleEnv (deriveFilename exampleEnv exampleRecord)) \<noteq> None"
    by (simp add: example_filename example_savePath presentState_def)
  have c: "encoderCalls presentState = []" "metaFile presentState = \<lparr> v = 1, resources = Map.empty \<rparr>"
    "providerCalls presentState = []" "videoMetaCache presentState ''https://host/abc'' = None"
    "getURLVideoID exampleEnv ''https://host/abc'' = Inr ''abc''"
    by (simp_all add: presentState_def initialState_def exampleEnv_def)
  from existing_file_skips_encode_after_resolution [OF h, THEN conjunct2] h show ?thesis
    by (simp add: c example_videoUrl)
qed

text \<open>
  C4 as stated, refuted: the output file of \<open>exampleRecord\<close> is on disk, and processing
  the record still calls the provider for its URL.
\<close>

theorem existing_file_still_resolved_counterexample:
  "files presentState (savePath exampleEnv (deriveFilename exampleEnv exampleRecord)) = Some ''mp3''
   \<and> providerCalls presentState = []
   \<and> providerCalls (processRecord exampleEnv presentState exampleRecord) = [''https://host/abc'']"
proof -
  have f: "files presentState (savePath exampleEnv (deriveFilename exampleEnv exampleRecord)) = Some ''mp3''"
    by (simp add: example_filename example_savePath presentState_def)
  have h1: "fst (resolveVideoMeta exampleEnv presentState (videoUrl exampleRecord)) = Some exampleMeta"
    by (simp add: example_videoUrl example_resolve_present)
  have h2: "files presentState (savePath exampleEnv (deriveFilename exampleEnv exampleRecord)) \<noteq> None"
    using f by simp
  have "providerCalls (processRecord exampleEnv presentState exampleRecord) = [''https://host/abc'']"
    by (simp add: processRecord_present [OF h1 h2] cacheMeta_fields example_videoUrl
        example_resolve_present)
  moreover have "providerCalls presentState = []"
    by (simp add: presentState_def initialState_def)
  ultimately show ?thesis using f by simp
qed

text \<open>
  C8, as the code has it. Only the file on disk decides whether a record is skipped; the
  index is never consulted. A record whose derived filename has an index entry but whose
  file is missing is downloaded again whenever its resolution succeeds: the encoder is
  invoked once for it, and its index entry is replaced by a new one.
\<close>

theorem indexed_record_with_missing_file_is_encoded:
  assumes "resources (metaFile s) (deriveFilename E r) = Some m0"
    and "files s (savePath E (deriveFilename E r)) = None"
    and "fst (resolveVideoMeta E s (videoUrl r)) = Some vm"
  shows "encoderCalls (processRecord E s r) =
           encoderCalls s @ [encodeArgs E \<lparr> opt_url = source_url (vm_source vm),
              opt_output = savePath E (deriveFilename E r),
              opt_startTime = startTime r, opt_duration = duration r \<rparr>]
       \<and> resources (metaFile (processRecord E s r)) (deriveFilename E r) =
           Some (newMeta (UUIDv4 E (uuids s)) r vm (deriveFilename E r))"
  using processRecord_encoded_fields(1,2) [OF assms(3,2)]
  by (simp add: putResource_def)

theorem indexed_record_with_missing_file_is_encoded_witness:
  "resources (metaFile staleState) (deriveFilename exampleEnv exampleRecord) = Some staleMeta
   \<and> files staleState (savePath exampleEnv (deriveFilename exampleEnv exampleRecord)) = None
   \<and> fst (resolveVideoMeta exampleEnv staleState (videoUrl exampleRecord)) = Some exampleMeta
   \<and> length (encoderCalls (processRecord exampleEnv staleState exampleRecord)) = 1
   \<and> resources (metaFile (processRecord exampleEnv staleState exampleRecord)) ''r1-TestClip.mp3'' =
       Some (newMeta ''uuid-'' exampleRecord exampleMeta ''r1-TestClip.mp3'')"
proof -
  have h1: "fst (resolveVideoMeta exampleEnv staleState (videoUrl exampleRecord)) = Some exampleMeta"
    by (simp add: example_videoUrl example_resolve_stale)
  have h2: "files staleState (savePath exampleEnv (deriveFilename exampleEnv exampleRecord)) = None"
    by (simp add: staleState_def initialState_def)
  have i: "resources (metaFile staleState) (deriveFilename exampleEnv exampleRecord) = Some staleMeta"
    by (simp add: staleState_def example_filename)
  have c: "encoderCalls staleState = []" "uuids staleState = 0" "UUIDv4 exampleEnv 0 = ''uuid-''"
    by (simp_all add: staleState_def initialState_def exampleEnv_def)
  from indexed_record_with_missing_file_is_encoded [OF i h2 h1] i h2 h1 show ?thesis
    by (simp add: c example_filename)
qed

text \<open>
  C8 as stated, refuted: the index holds an entry for the derived filename of
  \<open>exampleRecord\<close>, no file is on disk, and the encoder is invoked for the record.
\<close>

theorem indexed_record_with_missing_file_counterexample:
  "resources (metaFile staleState) (deriveFilename exampleEnv exampleRecord) = Some staleMeta
   \<and> files staleState (savePath exampleEnv (deriveFilename exampleEnv exampleRecord)) = None
   \<and> encoderCalls staleState = []
   \<and> encoderCalls (processRecord exampleEnv staleState exampleRecord) =
       [[''ffmpeg'', ''-hide_banner'', ''-nostdin'', ''-i'', ''https://stream/abc.audio'',
         ''-ss'', ''10'', ''-t'', ''5'', ''-vn'', ''-c:a'', ''libmp3lame'',
         ''/work/.temp/r1-TestClip.mp3'']]"
proof -
  have h1: "fst (resolveVideoMeta exampleEnv staleState (videoUrl exampleRecord)) = Some exampleMeta"
    by (simp add: example_videoUrl example_resolve_stale)
  have h2: "files staleState (savePath exampleEnv (deriveFilename exampleEnv exampleRecord)) = None"
    by (simp add: staleState_def initialState_def)
  have e: "encoderCalls staleState = []"
    by (simp add: staleState_def initialState_def)
  have i: "resources (metaFile staleState) (deriveFilename exampleEnv exampleRecord) = Some staleMeta"
    by (simp add: staleState_def example_filename)
  from processRecord_encoded_fields(2) [OF h1 h2] h2 e i show ?thesis
    by (simp add: example_encodeArgs)
qed

section \<open>Failed resolutions\<close>

text \<open>
  C3, as the code has it. Stream resolution fails exactly when the URL cannot be parsed,
  or the provider's \<^verbatim>\<open>getInfo\<close> itself fails, or no returned stream carries audio, or
  the selected stream (the first audio-carrying stream of highest rate) lacks a reported
  sample rate; when all reported rates are positive, the last condition is that every
  audio-carrying stream lacks a reported sample rate. When the resolution of a record
  fails, the step changes nothing but the log of provider calls (no index entry, no
  file, no encoder call, no cache entry), and the loop goes on with the next record.
\<close>

theorem resolution_fails_iff_and_record_skipped:
  "(fst (getVideoMeta E s u) = None \<longleftrightarrow>
      (case getURLVideoID E u of
         Inl e \<Rightarrow> True
       | Inr vid \<Rightarrow>
           (case getInfo E (length (providerCalls s)) u of
              Inl e \<Rightarrow> True
            | Inr info \<Rightarrow>
                (\<forall>i \<in> set (formats info). \<not> hasAudio i)
                \<or> (\<exists>b. bestFormat (formats info) = Some b \<and> audioSampleRate b = None))))
   \<and> ((case getInfo E (length (providerCalls s)) u of
          Inl e \<Rightarrow> True
        | Inr info \<Rightarrow> (\<forall>i \<in> set (formats info). \<forall>r. audioSampleRate i = Some r \<longrightarrow> 0 < r))
       \<longrightarrow>
       (fst (getVideoMeta E s u) = None \<longleftrightarrow>
          (case getURLVideoID E u of
             Inl e \<Rightarrow> True
           | Inr vid \<Rightarrow>
               (case getInfo E (length (providerCalls s)) u of
                  Inl e \<Rightarrow> True
                | Inr info \<Rightarrow>
                    (\<forall>i \<in> set (formats info). \<not> hasAudio i)
                    \<or> (\<forall>i \<in> set (formats info). hasAudio i \<longrightarrow> audioSampleRate i = None)))))
   \<and> (fst (resolveVideoMeta E s (videoUrl r)) = None \<longrightarrow>
        metaFile (processRecord E s r) = metaFile s
        \<and> files (processRecord E s r) = files s
        \<and> encoderCalls (processRecord E s r) = encoderCalls s
        \<and> videoMetaCache (processRecord E s r) = videoMetaCache s
        \<and> uuids (processRecord E s r) = uuids s
        \<and> processRecords E s (r # rs) =
            processRecords E (s\<lparr> providerCalls := providerCalls (snd (resolveVideoMeta E s (videoUrl r))) \<rparr>) rs)"
proof -
  have exact: "fst (getVideoMeta E s u) = None \<longleftrightarrow>
      (case getURLVideoID E u of
         Inl e \<Rightarrow> True
       | Inr vid \<Rightarrow>
           (case getInfo E (length (providerCalls s)) u of
              Inl e \<Rightarrow> True
            | Inr info \<Rightarrow>
                (\<forall>i \<in> set (formats info). \<not> hasAudio i)
                \<or> (\<exists>b. bestFormat (formats info) = Some b \<and> audioSampleRate b = None)))"
    unfolding getVideoMeta_None selectFormat_fails ..
  have positive: "fst (getVideoMeta E s u) = None \<longleftrightarrow>
          (case getURLVideoID E u of
             Inl e \<Rightarrow> True
           | Inr vid \<Rightarrow>
               (case getInfo E (length (providerCalls s)) u of
                  Inl e \<Rightarrow> True
                | Inr info \<Rightarrow>
                    (\<forall>i \<in> set (formats info). \<not> hasAudio i)
                    \<or> (\<forall>i \<in> set (formats info). hasAudio i \<longrightarrow> audioSampleRate i = None)))"
    if pos: "case getInfo E (length (providerCalls s)) u of
          Inl e \<Rightarrow> True
        | Inr info \<Rightarrow> (\<forall>i \<in> set (formats info). \<forall>r. audioSampleRate i = Some r \<longrightarrow> 0 < r)"
  proof (cases "getInfo E (length (providerCalls s)) u")
    case (Inl e)
    then show ?thesis by (simp add: exact split: sum.splits)
  next
    case (Inr info)
    with pos have "\<forall>i \<in> set (formats info). \<forall>r. audioSampleRate i = Some r \<longrightarrow> 0 < r"
      by simp
    from selected_unreported_iff [OF this]
    have "(\<forall>i \<in> set (formats info). \<not> hasAudio i)
            \<or> (\<exists>b. bestFormat (formats info) = Some b \<and> audioSampleRate b = None)
          \<longleftrightarrow> (\<forall>i \<in> set (formats info). \<not> hasAudio i)
            \<or> (\<forall>i \<in> set (formats info). hasAudio i \<longrightarrow> audioSampleRate i = None)"
      by blast
    with Inr show ?thesis by (simp add: exact split: sum.splits)
  qed
  have skip: "metaFile (processRecord E s r) = metaFile s
        \<and> files (processRecord E s r) = files s
        \<and> encoderCalls (processRecord E s r) = encoderCalls s
        \<and> videoMetaCache (processRecord E s r) = videoMetaCache s
        \<and> uuids (processRecord E s r) = uuids s
        \<and> processRecords E s (r # rs) =
            processRecords E (s\<lparr> providerCalls := providerCalls (snd (resolveVideoMeta E s (videoUrl r))) \<rparr>) rs"
    if f: "fst (resolveVideoMeta E s (videoUrl r)) = None"
  proof -
    have "processRecord E s r = s\<lparr> providerCalls := providerCalls (snd (resolveVideoMeta E s (videoUrl r))) \<rparr>"
      using processRecord_failed [OF f] resolveVideoMeta_frame [of E s "videoUrl r"] by simp
    then show ?thesis by simp
  qed
  from exact positive skip show ?thesis by blast
qed

theorem resolution_fails_iff_and_record_skipped_witness:
  "getURLVideoID unreachableEnv ''https://host/abc'' = Inr ''abc''
   \<and> getInfo unreachableEnv (length (providerCalls initialState)) ''https://host/abc'' = Inl ProviderError
   \<and> fst (getVideoMeta unreachableEnv initialState ''https://host/abc'') = None
   \<and> fst (getVideoMeta unratedEnv initialState ''https://host/abc'') = None
   \<and> fst (getVideoMeta exampleEnv initialState ''https://host/abc'') \<noteq> None
   \<and> fst (resolveVideoMeta unreachableEnv initialState (videoUrl exampleRecord)) = None
   \<and> metaFile (processRecord unreachableEnv initialState exampleRecord) = metaFile initialState
   \<and> files (processRecord unreachableEnv initialState exampleRecord) = files initialState
   \<and> encoderCalls (processRecord unreachableEnv initialState exampleRecord) = encoderCalls initialState
   \<and> videoMetaCache (processRecord unreachableEnv initialState exampleRecord) = videoMetaCache initialState"
proof -
  note t = resolution_fails_iff_and_record_skipped
    [of unreachableEnv initialState "''https://host/abc''" exampleRecord "[]"]
  have e: "getURLVideoID unreachableEnv ''https://host/abc'' = Inr ''abc''"
    "getInfo unreachableEnv (length (providerCalls initialState)) ''https://host/abc'' = Inl ProviderError"
    by (simp_all add: unreachableEnv_def exampleEnv_def)
  from t [THEN conjunct1] have g: "fst (getVideoMeta unreachableEnv initialState ''https://host/abc'') = None"
    by (simp add: e)
  have "videoMetaCache initialState ''https://host/abc'' = None"
    by (simp add: initialState_def)
  with g have h: "fst (resolveVideoMeta unreachableEnv initialState (videoUrl exampleRecord)) = None"
    by (simp add: resolveVideoMeta_def example_videoUrl)
  have unrated: "fst (getVideoMeta unratedEnv initialState ''https://host/abc'') = None"
    using resolution_fails_iff_and_record_skipped
      [of unratedEnv initialState "''https://host/abc''", THEN conjunct2, THEN conjunct1]
    by (simp add: unratedEnv_def exampleEnv_def)
  have rated: "fst (getVideoMeta exampleEnv initialState ''https://host/abc'') \<noteq> None"
    using resolution_fails_iff_and_record_skipped
      [of exampleEnv initialState "''https://host/abc''", THEN conjunct2, THEN conjunct1]
    by (simp add: exampleEnv_def exampleInfo_def exampleFormats_def)
  from t [THEN conjunct2, THEN conjunct2] h e g unrated rated show ?thesis by simp
qed

text \<open>
  C3 as stated, refuted twice. With a provider whose \<^verbatim>\<open>getInfo\<close> rejects, resolution
  fails although the URL parses and none of the three listed conditions holds. With a
  provider whose first audio stream reports no rate and whose second reports
  \<^verbatim>\<open>'0'\<close>, both keys are 0, the first stream is selected, and resolution fails although
  not every audio-carrying stream lacks a reported rate.
\<close>

theorem resolution_fails_counterexample:
  "fst (getVideoMeta unreachableEnv initialState ''https://host/abc'') = None
   \<and> \<not> specResolutionFails unreachableEnv initialState ''https://host/abc''
   \<and> fst (getVideoMeta tiedEnv initialState ''https://host/abc'') = None
   \<and> \<not> specResolutionFails tiedEnv initialState ''https://host/abc''"
  by (simp add: getVideoMeta_def specResolutionFails_def unreachableEnv_def tiedEnv_def
      exampleEnv_def initialState_def selectFormat_def bestFormat_def maxBy_def exampleInfo_def
      rateKey_def)

section \<open>The resolution cache\<close>

lemma failed_means_uncached:
  "fst (resolveVideoMeta E s u) = None \<Longrightarrow> videoMetaCache s u = None"
  by (simp add: resolveVideoMeta_def split: option.splits)

lemma failed_step_keeps_cache:
  "fst (resolveVideoMeta E s (videoUrl r)) = None \<Longrightarrow>
     videoMetaCache (processRecord E s r) = videoMetaCache s"
  by (simp add: processRecord_videoMetaCache)

lemma uncached_step_calls:
  "videoMetaCache s (videoUrl r) = None \<Longrightarrow> getURLVideoID E (videoUrl r) = Inr vid \<Longrightarrow>
     providerCalls (processRecord E s r) = providerCalls s @ [videoUrl r]"
  by (simp add: processRecord_providerCalls resolveVideoMeta_providerCalls)

lemma unparsable_step_no_call:
  "getURLVideoID E (videoUrl r) = Inl e \<Longrightarrow> providerCalls (processRecord E s r) = providerCalls s"
  by (simp add: processRecord_providerCalls resolveVideoMeta_providerCalls split: option.splits)

lemma failed_then_retried:
  assumes failed: "fst (resolveVideoMeta E s (videoUrl r)) = None"
    and parses: "getURLVideoID E (videoUrl r) = Inr vid"
    and same: "videoUrl r2 = videoUrl r"
  shows "providerCalls (processRecords E s [r, r2]) = providerCalls s @ [videoUrl r, videoUrl r]"
proof -
  have miss: "videoMetaCache s (videoUrl r) = None"
    by (rule failed_means_uncached [OF failed])
  have first: "providerCalls (processRecord E s r) = providerCalls s @ [videoUrl r]"
    by (rule uncached_step_calls [OF miss parses])
  have "videoMetaCache (processRecord E s r) (videoUrl r2) = None"
    using failed_step_keeps_cache [OF failed] miss same by simp
  moreover have "getURLVideoID E (videoUrl r2) = Inr vid"
    using parses same by simp
  ultimately have "providerCalls (processRecord E (processRecord E s r) r2) =
      providerCalls (processRecord E s r) @ [videoUrl r2]"
    by (rule uncached_step_calls)
  with first same show ?thesis by simp
qed

text \<open>
  C5, as the code has it. Only successful resolutions are cached. Once a URL is in the
  cache the provider is never invoked for it again; so if the resolution of a record
  succeeds, the provider is invoked at most once for its URL in the rest of the run, no
  matter how many later records carry it. In any case the provider is invoked at most
  once per record. A failed resolution is not cached: it leaves the cache as it was, and
  every record whose URL parses and is not in the cache invokes the provider once; so
  after a failed resolution of a URL that parses, the next record with the same URL
  invokes the provider again. A URL that does not parse never reaches the provider.
\<close>

theorem provider_not_invoked_again_after_success:
  "(videoMetaCache s u \<noteq> None \<longrightarrow>
      count_list (providerCalls (processRecords E s rs)) u = count_list (providerCalls s) u)
   \<and> (fst (resolveVideoMeta E s (videoUrl r)) \<noteq> None \<longrightarrow>
      count_list (providerCalls (processRecords E s (r # rs))) (videoUrl r)
        \<le> Suc (count_list (providerCalls s) (videoUrl r)))
   \<and> count_list (providerCalls (processRecords E s rs)) u
        \<le> count_list (providerCalls s) u + count_list (map videoUrl rs) u
   \<and> (fst (resolveVideoMeta E s (videoUrl r)) = None \<longrightarrow>
      videoMetaCache (processRecord E s r) = videoMetaCache s)
   \<and> (videoMetaCache s (videoUrl r) = None \<and> getURLVideoID E (videoUrl r) = Inr vid \<longrightarrow>
      providerCalls (processRecord E s r) = providerCalls s @ [videoUrl r])
   \<and> (fst (resolveVideoMeta E s (videoUrl r)) = None \<and> getURLVideoID E (videoUrl r) = Inr vid
        \<and> videoUrl r2 = videoUrl r \<longrightarrow>
      providerCalls (processRecords E s [r, r2]) = providerCalls s @ [videoUrl r, videoUrl r])
   \<and> (getURLVideoID E (videoUrl r) = Inl e \<longrightarrow>
      providerCalls (processRecord E s r) = providerCalls s)"
proof -
  have once: "count_list (providerCalls (processRecords E s (r # rs))) (videoUrl r)
        \<le> Suc (count_list (providerCalls s) (videoUrl r))"
    if ok: "fst (resolveVideoMeta E s (videoUrl r)) \<noteq> None"
  proof -
    have "count_list (providerCalls (processRecords E s (r # rs))) (videoUrl r) =
          count_list (providerCalls (processRecord E s r)) (videoUrl r)"
      using cached_run_no_call [OF cache_filled [OF ok]] by simp
    also have "\<dots> \<le> Suc (count_list (providerCalls s) (videoUrl r))"
      using step_at_most_one_call [of E s r "videoUrl r"] by simp
    finally show ?thesis .
  qed
  have bounds: "(videoMetaCache s u \<noteq> None \<longrightarrow>
      count_list (providerCalls (processRecords E s rs)) u = count_list (providerCalls s) u)
   \<and> (fst (resolveVideoMeta E s (videoUrl r)) \<noteq> None \<longrightarrow>
      count_list (providerCalls (processRecords E s (r # rs))) (videoUrl r)
        \<le> Suc (count_list (providerCalls s) (videoUrl r)))
   \<and> count_list (providerCalls (processRecords E s rs)) u
        \<le> count_list (providerCalls s) u + count_list (map videoUrl rs) u"
    using once cached_run_no_call [of s u E rs] run_at_most_one_call_per_record [of E s rs u]
    by blast
  have retried: "(fst (resolveVideoMeta E s (videoUrl r)) = None \<longrightarrow>
      videoMetaCache (processRecord E s r) = videoMetaCache s)
   \<and> (videoMetaCache s (videoUrl r) = None \<and> getURLVideoID E (videoUrl r) = Inr vid \<longrightarrow>
      providerCalls (processRecord E s r) = providerCalls s @ [videoUrl r])
   \<and> (fst (resolveVideoMeta E s (videoUrl r)) = None \<and> getURLVideoID E (videoUrl r) = Inr vid
        \<and> videoUrl r2 = videoUrl r \<longrightarrow>
      providerCalls (processRecords E s [r, r2]) = providerCalls s @ [videoUrl r, videoUrl r])
   \<and> (getURLVideoID E (videoUrl r) = Inl e \<longrightarrow>
      providerCalls (processRecord E s r) = providerCalls s)"
    using failed_step_keeps_cache [of E s r] uncached_step_calls [of s r E vid]
      failed_then_retried [of E s r vid r2] unparsable_step_no_call [of E r e s]
    by blast
  from bounds retried show ?thesis by blast
qed

theorem provider_not_invoked_again_after_success_witness:
  "videoMetaCache (processRecord exampleEnv initialState exampleRecord) ''https://host/abc'' \<noteq> None
   \<and> fst (resolveVideoMeta exampleEnv initialState (videoUrl exampleRecord)) \<noteq> None
   \<and> count_list (providerCalls (processRecords exampleEnv initialState [exampleRecord, secondRecord, exampleRecord]))
        ''https://host/abc'' \<le> 1
   \<and> fst (resolveVideoMeta unreachableEnv initialState (videoUrl exampleRecord)) = None
   \<and> getURLVideoID unreachableEnv (videoUrl exampleRecord) = Inr ''abc''
   \<and> videoUrl secondRecord = videoUrl exampleRecord
   \<and> videoMetaCache (processRecord unreachableEnv initialState exampleRecord) = Map.empty
   \<and> providerCalls (processRecord unreachableEnv initialState exampleRecord) = [''https://host/abc'']
   \<and> providerCalls (processRecords unreachableEnv initialState [exampleRecord, secondRecord]) =
       [''https://host/abc'', ''https://host/abc'']
   \<and> getURLVideoID exampleEnv (videoUrl unparsableRecord) = Inl InvalidUrl
   \<and> providerCalls (processRecord exampleEnv initialState unparsableRecord) = []"
proof -
  have h: "fst (resolveVideoMeta exampleEnv initialState (videoUrl exampleRecord)) \<noteq> None"
    by (simp add: example_videoUrl example_resolve_initial)
  have c: "videoMetaCache (processRecord exampleEnv initialState exampleRecord) ''https://host/abc'' \<noteq> None"
    using cache_filled [OF h] by (simp add: example_videoUrl)
  have z: "count_list (providerCalls initialState) ''https://host/abc'' = 0"
    "providerCalls initialState = []" "videoMetaCache initialState = Map.empty"
    by (simp_all add: initialState_def)
  from provider_not_invoked_again_after_success
    [of initialState "''https://host/abc''" exampleEnv "[secondRecord, exampleRecord]" exampleRecord,
      THEN conjunct2, THEN conjunct1] h z(1)
  have once: "count_list (providerCalls (processRecords exampleEnv initialState [exampleRecord, secondRecord, exampleRecord]))
        ''https://host/abc'' \<le> 1"
    by (simp add: example_videoUrl)
  have f: "fst (resolveVideoMeta unreachableEnv initialState (videoUrl exampleRecord)) = None"
    by (simp add: resolveVideoMeta_def z(3) example_videoUrl unreachable_getVideoMeta)
  have p: "getURLVideoID unreachableEnv (videoUrl exampleRecord) = Inr ''abc''"
    by (simp add: unreachableEnv_def exampleEnv_def example_videoUrl)
  have same: "videoUrl secondRecord = videoUrl exampleRecord"
    by (simp add: secondRecord_def)
  note t = provider_not_invoked_again_after_success
    [of initialState "''https://host/abc''" unreachableEnv "[]" exampleRecord "''abc''" secondRecord InvalidUrl,
      THEN conjunct2, THEN conjunct2, THEN conjunct2]
  from t [THEN conjunct1] f
  have kept: "videoMetaCache (processRecord unreachableEnv initialState exampleRecord) = Map.empty"
    by (simp add: z(3))
  from t [THEN conjunct2, THEN conjunct1] p
  have called: "providerCalls (processRecord unreachableEnv initialState exampleRecord) = [''https://host/abc'']"
    by (simp add: z example_videoUrl)
  from t [THEN conjunct2, THEN conjunct2, THEN conjunct1] f p same
  have again: "providerCalls (processRecords unreachableEnv initialState [exampleRecord, secondRecord]) =
       [''https://host/abc'', ''https://host/abc'']"
    by (simp add: z(2) example_videoUrl)
  have q: "getURLVideoID exampleEnv (videoUrl unparsableRecord) = Inl InvalidUrl"
    by (simp add: unparsableRecord_def exampleEnv_def)
  from provider_not_invoked_again_after_success
    [of initialState "''https://host/abc''" exampleEnv "[]" unparsableRecord "''abc''" secondRecord InvalidUrl,
      THEN conjunct2, THEN conjunct2, THEN conjunct2, THEN conjunct2, THEN conjunct2, THEN conjunct2] q
  have never: "providerCalls (processRecord exampleEnv initialState unparsableRecord) = []"
    by (simp add: z(2))
  from c h once f p same kept called again q never show ?thesis by blast
qed

text \<open>
  C5 as stated, refuted: two records carry the same URL, the provider fails for it, and
  the provider is invoked twice for that URL.
\<close>

theorem failed_resolution_is_retried_counterexample:
  "videoUrl exampleRecord = ''https://host/abc'' \<and> videoUrl secondRecord = ''https://host/abc''
   \<and> providerCalls (processRecords unreachableEnv initialState [exampleRecord, secondRecord]) =
       [''https://host/abc'', ''https://host/abc'']"
proof -
  have u: "videoUrl exampleRecord = ''https://host/abc''" "videoUrl secondRecord = ''https://host/abc''"
    by (simp_all add: exampleRecord_def secondRecord_def)
  have r: "resolveVideoMeta unreachableEnv s ''https://host/abc'' =
      (None, s\<lparr> providerCalls := providerCalls s @ [''https://host/abc''] \<rparr>)"
    if "videoMetaCache s = Map.empty" for s
    using that by (simp add: resolveVideoMeta_def unreachable_getVideoMeta)
  have step: "processRecord unreachableEnv s x = s\<lparr> providerCalls := providerCalls s @ [''https://host/abc''] \<rparr>"
    if "videoMetaCache s = Map.empty" "videoUrl x = ''https://host/abc''" for s x
    using that by (simp add: processRecord_def r)
  have "processRecords unreachableEnv initialState [exampleRecord, secondRecord] =
        initialState\<lparr> providerCalls := [''https://host/abc'', ''https://host/abc''] \<rparr>"
    by (simp add: step u initialState_def)
  with u show ?thesis by simp
qed

section \<open>The index during a run\<close>

lemma processRecord_skip_fields:
  assumes "files s (savePath E (deriveFilename E r)) \<noteq> None"
  shows "metaFile (processRecord E s r) = metaFile s"
    and "files (processRecord E s r) = files s"
    and "encoderCalls (processRecord E s r) = encoderCalls s"
    and "uuids (processRecord E s r) = uuids s"
proof -
  have "metaFile (processRecord E s r) = metaFile s \<and> files (processRecord E s r) = files s
      \<and> encoderCalls (processRecord E s r) = encoderCalls s \<and> uuids (processRecord E s r) = uuids s"
  proof (cases "fst (resolveVideoMeta E s (videoUrl r))")
    case None
    from processRecord_failed [OF None] show ?thesis
      by (simp add: resolveVideoMeta_fields)
  next
    case (Some vm)
    from processRecord_present [OF Some assms] show ?thesis
      by (simp add: cacheMeta_fields resolveVideoMeta_fields)
  qed
  then show "metaFile (processRecord E s r) = metaFile s"
    and "files (processRecord E s r) = files s"
    and "encoderCalls (processRecord E s r) = encoderCalls s"
    and "uuids (processRecord E s r) = uuids s"
    by simp_all
qed

lemma processRecord_resources:
  "resources (metaFile (processRecord E s r)) k = resources (metaFile s) k
   \<or> (k = deriveFilename E r \<and> files s (savePath E k) = None
       \<and> resources (metaFile (processRecord E s r)) k \<noteq> None)"
proof (cases "fst (resolveVideoMeta E s (videoUrl r))")
  case None
  from processRecord_failed [OF None] show ?thesis
    by (simp add: resolveVideoMeta_fields)
next
  case (Some vm)
  show ?thesis
  proof (cases "files s (savePath E (deriveFilename E r)) = None")
    case True
    from processRecord_encoded_fields(1) [OF Some True] True show ?thesis
      by (simp add: putResource_def)
  next
    case False
    from processRecord_skip_fields(1) [OF False] show ?thesis by simp
  qed
qed

lemma step_keeps_entries:
  "resources (metaFile s) k \<noteq> None \<Longrightarrow> resources (metaFile (processRecord E s r)) k \<noteq> None"
  using processRecord_resources [of E s r k] by auto

lemma step_keeps_entry_of_file:
  "files s (savePath E k) \<noteq> None \<Longrightarrow>
     resources (metaFile (processRecord E s r)) k = resources (metaFile s) k"
  using processRecord_resources [of E s r k] by auto

lemma processRecord_files:
  "files (processRecord E s r) = files s
   \<or> (\<exists>argv. files (processRecord E s r) = snd (shell_exec E argv (files s)))"
proof (cases "fst (resolveVideoMeta E s (videoUrl r))")
  case None
  from processRecord_failed [OF None] show ?thesis
    by (simp add: resolveVideoMeta_fields)
next
  case (Some vm)
  show ?thesis
  proof (cases "files s (savePath E (deriveFilename E r)) = None")
    case True
    from processRecord_encoded_fields(3) [OF Some True] show ?thesis by blast
  next
    case False
    from processRecord_skip_fields(2) [OF False] show ?thesis by simp
  qed
qed

lemma step_keeps_files:
  assumes "\<forall>argv fs p. fs p \<noteq> None \<longrightarrow> snd (shell_exec E argv fs) p \<noteq> None"
    and "files s p \<noteq> None"
  shows "files (processRecord E s r) p \<noteq> None"
  using processRecord_files [of E s r] assms by auto

lemma run_keeps_entries:
  "resources (metaFile s) k \<noteq> None \<Longrightarrow> resources (metaFile (processRecords E s rs)) k \<noteq> None"
proof (induction rs arbitrary: s)
  case Nil
  then show ?case by simp
next
  case (Cons r rs)
  from Cons.IH [OF step_keeps_entries [OF Cons.prems]] show ?case by simp
qed

lemma run_keeps_entry_of_file:
  assumes "\<forall>argv fs p. fs p \<noteq> None \<longrightarrow> snd (shell_exec E argv fs) p \<noteq> None"
  shows "files s (savePath E k) \<noteq> None \<Longrightarrow>
     resources (metaFile (processRecords E s rs)) k = resources (metaFile s) k"
proof (induction rs arbitrary: s)
  case Nil
  then show ?case by simp
next
  case (Cons r rs)
  have "files (processRecord E s r) (savePath E k) \<noteq> None"
    by (rule step_keeps_files [OF assms Cons.prems])
  from Cons.IH [OF this] step_keeps_entry_of_file [OF Cons.prems] show ?case by simp
qed

lemma last_encodeArgs: "last (encodeArgs E opts) = opt_output opts"
  by (simp add: encodeArgs_def)

lemma collision_second_skipped:
  assumes same: "deriveFilename E r2 = deriveFilename E r1"
    and written: "files (processRecord E s r1) (savePath E (deriveFilename E r1)) \<noteq> None"
  shows "metaFile (processRecords E s [r1, r2]) = metaFile (processRecord E s r1)"
    and "encoderCalls (processRecords E s [r1, r2]) = encoderCalls (processRecord E s r1)"
    and "files (processRecords E s [r1, r2]) = files (processRecord E s r1)"
proof -
  from written have there: "files (processRecord E s r1) (savePath E (deriveFilename E r2)) \<noteq> None"
    by (simp add: same)
  from processRecord_skip_fields(1,2,3) [OF there]
  show "metaFile (processRecords E s [r1, r2]) = metaFile (processRecord E s r1)"
    and "encoderCalls (processRecords E s [r1, r2]) = encoderCalls (processRecord E s r1)"
    and "files (processRecords E s [r1, r2]) = files (processRecord E s r1)"
    by simp_all
qed

lemma collision_keeps_first:
  assumes same: "deriveFilename E r2 = deriveFilename E r1"
    and ok: "fst (resolveVideoMeta E s (videoUrl r1)) = Some vm"
    and absent: "files s (savePath E (deriveFilename E r1)) = None"
    and written: "files (processRecord E s r1) (savePath E (deriveFilename E r1)) \<noteq> None"
  shows "resources (metaFile (processRecords E s [r1, r2])) (deriveFilename E r1) =
           Some (newMeta (UUIDv4 E (uuids s)) r1 vm (deriveFilename E r1))"
  by (simp only: collision_second_skipped(1) [OF same written]
      processRecord_encoded_fields(1) [OF ok absent]) (simp add: putResource_def)

lemma missing_file_entry_replaced:
  assumes "fst (resolveVideoMeta E s (videoUrl r)) = Some vm"
    and "files s (savePath E (deriveFilename E r)) = None"
  shows "resources (metaFile (processRecord E s r)) (deriveFilename E r) =
           Some (newMeta (UUIDv4 E (uuids s)) r vm (deriveFilename E r))"
  by (simp add: processRecord_encoded_fields(1) [OF assms] putResource_def)

lemma changed_entry_had_no_file:
  assumes "resources (metaFile (processRecord E s r)) k \<noteq> resources (metaFile s) k"
  shows "k = deriveFilename E r \<and> files s (savePath E k) = None"
  using processRecord_resources [of E s r k] assms by blast

lemma resolveVideoMeta_cached:
  "videoMetaCache s u = Some vm \<Longrightarrow> resolveVideoMeta E s u = (Some vm, s)"
  by (simp add: resolveVideoMeta_def)

lemma getVideoMeta_shell_exec:
  "getVideoMeta (E\<lparr> shell_exec := x \<rparr>) s u = getVideoMeta E s u"
  by (simp add: getVideoMeta_def Let_def split: sum.splits)

lemma failing_basics:
  "deriveFilename failingEnv r = deriveFilename exampleEnv r"
  "savePath failingEnv fn = savePath exampleEnv fn"
  "UUIDv4 failingEnv n = ''uuid-'' @ replicate n (CHR ''i'')"
  "snd (shell_exec failingEnv argv fs) = fs"
  "resolveVideoMeta failingEnv s u = resolveVideoMeta exampleEnv s u"
proof -
  show "deriveFilename failingEnv r = deriveFilename exampleEnv r"
    by (simp add: failingEnv_def deriveFilename_def)
  show "savePath failingEnv fn = savePath exampleEnv fn"
    by (simp add: failingEnv_def savePath_def)
  show "UUIDv4 failingEnv n = ''uuid-'' @ replicate n (CHR ''i'')"
    by (simp add: failingEnv_def exampleEnv_def)
  show "snd (shell_exec failingEnv argv fs) = fs"
    by (simp add: failingEnv_def)
  show "resolveVideoMeta failingEnv s u = resolveVideoMeta exampleEnv s u"
    by (simp add: failingEnv_def resolveVideoMeta_def getVideoMeta_shell_exec split: option.splits)
qed

lemma colliding_filename: "deriveFilename exampleEnv collidingRecord = ''r1-TestClip.mp3''"
  by (simp add: deriveFilename_def exampleEnv_def collidingRecord_def exampleRecord_def
      stripIllegal_def illegalChars_def)

lemma example_keeps_files:
  "\<forall>argv fs p. fs p \<noteq> None \<longrightarrow> snd (shell_exec exampleEnv argv fs) p \<noteq> None"
  by (simp add: exampleEnv_def)

text \<open>
  C9, as the code has it. During the loop no index entry is ever deleted. A step replaces
  an entry only when a record deriving its filename is processed while no file is at the
  derived path; so the entry of a filename whose file is on disk is not replaced by the
  step, nor in the rest of the run when the encoder removes no files. An entry whose
  file is missing is replaced by a new one when a record deriving that filename is
  processed and its resolution succeeds. In the filename-collision scenario, provided
  the first record's encode wrote its output file, the second record is skipped (no
  encoder call, no file change) and the index retains the first record's metadata.
\<close>

theorem index_entries_kept_while_file_exists:
  "(\<forall>k. resources (metaFile s) k \<noteq> None \<longrightarrow>
       resources (metaFile (processRecords E s rs)) k \<noteq> None)
   \<and> (\<forall>k. resources (metaFile (processRecord E s r)) k \<noteq> resources (metaFile s) k \<longrightarrow>
       k = deriveFilename E r \<and> files s (savePath E k) = None)
   \<and> ((\<forall>argv fs p. fs p \<noteq> None \<longrightarrow> snd (shell_exec E argv fs) p \<noteq> None) \<longrightarrow>
       (\<forall>k. files s (savePath E k) \<noteq> None \<longrightarrow>
          resources (metaFile (processRecords E s rs)) k = resources (metaFile s) k))
   \<and> (fst (resolveVideoMeta E s (videoUrl r)) = Some vm
        \<and> files s (savePath E (deriveFilename E r)) = None \<longrightarrow>
       resources (metaFile (processRecord E s r)) (deriveFilename E r) =
         Some (newMeta (UUIDv4 E (uuids s)) r vm (deriveFilename E r)))
   \<and> (deriveFilename E r2 = deriveFilename E r1
        \<and> files (processRecord E s r1) (savePath E (deriveFilename E r1)) \<noteq> None \<longrightarrow>
       metaFile (processRecords E s [r1, r2]) = metaFile (processRecord E s r1)
       \<and> encoderCalls (processRecords E s [r1, r2]) = encoderCalls (processRecord E s r1)
       \<and> files (processRecords E s [r1, r2]) = files (processRecord E s r1))
   \<and> (deriveFilename E r2 = deriveFilename E r1
        \<and> fst (resolveVideoMeta E s (videoUrl r1)) = Some vm1
        \<and> files s (savePath E (deriveFilename E r1)) = None
        \<and> files (processRecord E s r1) (savePath E (deriveFilename E r1)) \<noteq> None \<longrightarrow>
       resources (metaFile (processRecords E s [r1, r2])) (deriveFilename E r1) =
         Some (newMeta (UUIDv4 E (uuids s)) r1 vm1 (deriveFilename E r1)))"
proof -
  have kept: "\<forall>k. resources (metaFile s) k \<noteq> None \<longrightarrow>
       resources (metaFile (processRecords E s rs)) k \<noteq> None"
    using run_keeps_entries [of s _ E rs] by blast
  have only: "\<forall>k. resources (metaFile (processRecord E s r)) k \<noteq> resources (metaFile s) k \<longrightarrow>
       k = deriveFilename E r \<and> files s (savePath E k) = None"
    using changed_entry_had_no_file [of E s r] by blast
  have onDisk: "(\<forall>argv fs p. fs p \<noteq> None \<longrightarrow> snd (shell_exec E argv fs) p \<noteq> None) \<longrightarrow>
       (\<forall>k. files s (savePath E k) \<noteq> None \<longrightarrow>
          resources (metaFile (processRecords E s rs)) k = resources (metaFile s) k)"
    using run_keeps_entry_of_file [of E s _ rs] by blast
  have replaced: "fst (resolveVideoMeta E s (videoUrl r)) = Some vm
        \<and> files s (savePath E (deriveFilename E r)) = None \<longrightarrow>
       resources (metaFile (processRecord E s r)) (deriveFilename E r) =
         Some (newMeta (UUIDv4 E (uuids s)) r vm (deriveFilename E r))"
    using missing_file_entry_replaced [of E s r vm] by blast
  have skipped: "deriveFilename E r2 = deriveFilename E r1
        \<and> files (processRecord E s r1) (savePath E (deriveFilename E r1)) \<noteq> None \<longrightarrow>
       metaFile (processRecords E s [r1, r2]) = metaFile (processRecord E s r1)
       \<and> encoderCalls (processRecords E s [r1, r2]) = encoderCalls (processRecord E s r1)
       \<and> files (processRecords E s [r1, r2]) = files (processRecord E s r1)"
    using collision_second_skipped [of E r2 r1 s] by blast
  have first: "deriveFilename E r2 = deriveFilename E r1
        \<and> fst (resolveVideoMeta E s (videoUrl r1)) = Some vm1
        \<and> files s (savePath E (deriveFilename E r1)) = None
        \<and> files (processRecord E s r1) (savePath E (deriveFilename E r1)) \<noteq> None \<longrightarrow>
       resources (metaFile (processRecords E s [r1, r2])) (deriveFilename E r1) =
         Some (newMeta (UUIDv4 E (uuids s)) r1 vm1 (deriveFilename E r1))"
    using collision_keeps_first [of E r2 r1 s vm1] by blast
  from kept only onDisk replaced skipped first show ?thesis by blast
qed

theorem index_entries_kept_while_file_exists_witness:
  "files settledState (savePath exampleEnv ''r1-TestClip.mp3'') = Some ''mp3''
   \<and> resources (metaFile (processRecords exampleEnv settledState [exampleRecord, secondRecord]))
        ''r1-TestClip.mp3'' = Some staleMeta
   \<and> resources (metaFile staleState) ''r1-TestClip.mp3'' = Some staleMeta
   \<and> files staleState (savePath exampleEnv (deriveFilename exampleEnv exampleRecord)) = None
   \<and> resources (metaFile (processRecord exampleEnv staleState exampleRecord)) ''r1-TestClip.mp3'' =
       Some (newMeta ''uuid-'' exampleRecord exampleMeta ''r1-TestClip.mp3'')
   \<and> deriveFilename exampleEnv collidingRecord = deriveFilename exampleEnv exampleRecord
   \<and> files initialState (savePath exampleEnv (deriveFilename exampleEnv exampleRecord)) = None
   \<and> files (processRecord exampleEnv initialState exampleRecord)
        (savePath exampleEnv (deriveFilename exampleEnv exampleRecord)) = Some ''mp3''
   \<and> resources (metaFile (processRecords exampleEnv initialState [exampleRecord, collidingRecord]))
        ''r1-TestClip.mp3'' = Some (newMeta ''uuid-'' exampleRecord exampleMeta ''r1-TestClip.mp3'')
   \<and> length (encoderCalls (processRecords exampleEnv initialState [exampleRecord, collidingRecord])) = 1"
proof -
  have onDisk: "files settledState (savePath exampleEnv ''r1-TestClip.mp3'') = Some ''mp3''"
    by (simp add: settledState_def example_savePath)
  have entry: "resources (metaFile settledState) ''r1-TestClip.mp3'' = Some staleMeta"
    by (simp add: settledState_def staleState_def)
  from index_entries_kept_while_file_exists
    [of settledState exampleEnv "[exampleRecord, secondRecord]", THEN conjunct2, THEN conjunct2,
      THEN conjunct1] example_keeps_files onDisk entry
  have kept: "resources (metaFile (processRecords exampleEnv settledState [exampleRecord, secondRecord]))
        ''r1-TestClip.mp3'' = Some staleMeta"
    by simp
  have stale: "resources (metaFile staleState) ''r1-TestClip.mp3'' = Some staleMeta"
    by (simp add: staleState_def)
  have s1: "fst (resolveVideoMeta exampleEnv staleState (videoUrl exampleRecord)) = Some exampleMeta"
    by (simp add: example_videoUrl example_resolve_stale)
  have s2: "files staleState (savePath exampleEnv (deriveFilename exampleEnv exampleRecord)) = None"
    by (simp add: staleState_def initialState_def)
  have u0: "UUIDv4 exampleEnv (uuids initialState) = ''uuid-''" "encoderCalls initialState = []"
    "UUIDv4 exampleEnv (uuids staleState) = ''uuid-''" "files initialState = Map.empty"
    by (simp_all add: initialState_def staleState_def exampleEnv_def)
  from index_entries_kept_while_file_exists
    [of staleState exampleEnv "[]" exampleRecord exampleMeta, THEN conjunct2, THEN conjunct2,
      THEN conjunct2, THEN conjunct1] s1 s2
  have replaced: "resources (metaFile (processRecord exampleEnv staleState exampleRecord)) ''r1-TestClip.mp3'' =
       Some (newMeta ''uuid-'' exampleRecord exampleMeta ''r1-TestClip.mp3'')"
    by (simp add: example_filename u0)
  have same: "deriveFilename exampleEnv collidingRecord = deriveFilename exampleEnv exampleRecord"
    by (simp add: example_filename colliding_filename)
  have h1: "fst (resolveVideoMeta exampleEnv initialState (videoUrl exampleRecord)) = Some exampleMeta"
    by (simp add: example_videoUrl example_resolve_initial)
  have h2: "files initialState (savePath exampleEnv (deriveFilename exampleEnv exampleRecord)) = None"
    by (simp add: initialState_def)
  have "snd (shell_exec exampleEnv argv fs) = fs(last argv \<mapsto> ''mp3'')" for argv fs
    by (simp add: exampleEnv_def)
  then have written: "files (processRecord exampleEnv initialState exampleRecord)
        (savePath exampleEnv (deriveFilename exampleEnv exampleRecord)) = Some ''mp3''"
    using processRecord_encoded_fields(3) [OF h1 h2] by (simp add: last_encodeArgs)
  then have w: "files (processRecord exampleEnv initialState exampleRecord)
        (savePath exampleEnv (deriveFilename exampleEnv exampleRecord)) \<noteq> None"
    by simp
  note t = index_entries_kept_while_file_exists
    [of initialState exampleEnv "[]" exampleRecord exampleMeta collidingRecord exampleRecord exampleMeta,
      THEN conjunct2, THEN conjunct2, THEN conjunct2, THEN conjunct2]
  from t [THEN conjunct1] same w
  have calls: "encoderCalls (processRecords exampleEnv initialState [exampleRecord, collidingRecord]) =
       encoderCalls (processRecord exampleEnv initialState exampleRecord)"
    by blast
  have one: "length (encoderCalls (processRecords exampleEnv initialState [exampleRecord, collidingRecord])) = 1"
    by (simp only: calls processRecord_encoded_fields(2) [OF h1 h2] u0) simp
  from t [THEN conjunct2] same h1 h2 w
  have "resources (metaFile (processRecords exampleEnv initialState [exampleRecord, collidingRecord]))
                (deriveFilename exampleEnv exampleRecord) =
                 Some (newMeta (UUIDv4 exampleEnv (uuids initialState)) exampleRecord exampleMeta
                   (deriveFilename exampleEnv exampleRecord))"
    by blast
  then have first: "resources (metaFile (processRecords exampleEnv initialState [exampleRecord, collidingRecord]))
        ''r1-TestClip.mp3'' = Some (newMeta ''uuid-'' exampleRecord exampleMeta ''r1-TestClip.mp3'')"
    by (simp only: example_filename u0)
  from onDisk kept stale s2 replaced same h2 written first one show ?thesis by blast
qed

text \<open>
  C9 as stated, refuted twice. An entry loaded from the index file is replaced by a
  different one when its file is missing; and when the encoder fails, the second of two
  records deriving the same filename is encoded too and its metadata replaces the
  first's.
\<close>

theorem index_entry_replaced_counterexample:
  "resources (metaFile staleState) ''r1-TestClip.mp3'' = Some staleMeta
   \<and> resources (metaFile (processRecords exampleEnv staleState [exampleRecord])) ''r1-TestClip.mp3'' =
       Some (newMeta ''uuid-'' exampleRecord exampleMeta ''r1-TestClip.mp3'')
   \<and> newMeta ''uuid-'' exampleRecord exampleMeta ''r1-TestClip.mp3'' \<noteq> staleMeta
   \<and> deriveFilename failingEnv exampleRecord = ''r1-TestClip.mp3''
   \<and> deriveFilename failingEnv collidingRecord = ''r1-TestClip.mp3''
   \<and> resources (metaFile (processRecords failingEnv initialState [exampleRecord, collidingRecord]))
        ''r1-TestClip.mp3'' =
       Some (newMeta ''uuid-i'' collidingRecord exampleMeta ''r1-TestClip.mp3'')
   \<and> newMeta ''uuid-i'' collidingRecord exampleMeta ''r1-TestClip.mp3''
       \<noteq> newMeta ''uuid-'' exampleRecord exampleMeta ''r1-TestClip.mp3''"
proof -
  have old: "resources (metaFile staleState) ''r1-TestClip.mp3'' = Some staleMeta"
    by (simp add: staleState_def)
  have h1: "fst (resolveVideoMeta exampleEnv staleState (videoUrl exampleRecord)) = Some exampleMeta"
    by (simp add: example_videoUrl example_resolve_stale)
  have h2: "files staleState (savePath exampleEnv (deriveFilename exampleEnv exampleRecord)) = None"
    by (simp add: staleState_def initialState_def)
  have u0: "UUIDv4 exampleEnv (uuids staleState) = ''uuid-''"
    by (simp add: staleState_def initialState_def exampleEnv_def)
  have replaced: "resources (metaFile (processRecords exampleEnv staleState [exampleRecord])) ''r1-TestClip.mp3'' =
       Some (newMeta ''uuid-'' exampleRecord exampleMeta ''r1-TestClip.mp3'')"
    by (simp add: processRecord_encoded_fields(1) [OF h1 h2] putResource_def example_filename u0)
  have differs: "newMeta ''uuid-'' exampleRecord exampleMeta ''r1-TestClip.mp3'' \<noteq> staleMeta"
    by (simp add: newMeta_def staleMeta_def)
  have names: "deriveFilename failingEnv exampleRecord = ''r1-TestClip.mp3''"
    "deriveFilename failingEnv collidingRecord = ''r1-TestClip.mp3''"
    by (simp_all add: failing_basics example_filename colliding_filename)
  let ?s1 = "processRecord failingEnv initialState exampleRecord"
  have f1: "fst (resolveVideoMeta failingEnv initialState (videoUrl exampleRecord)) = Some exampleMeta"
    by (simp add: failing_basics example_videoUrl example_resolve_initial)
  have f2: "files initialState (savePath failingEnv (deriveFilename failingEnv exampleRecord)) = None"
    by (simp add: initialState_def)
  have init: "files initialState = Map.empty" "uuids initialState = 0"
    "videoMetaCache initialState = Map.empty"
    by (simp_all add: initialState_def)
  have s1_files: "files ?s1 = Map.empty"
    using processRecord_encoded_fields(3) [OF f1 f2] by (simp add: failing_basics(4) init)
  have s1_uuids: "uuids ?s1 = Suc 0"
    using processRecord_encoded_fields(4) [OF f1 f2] by (simp add: init)
  have s1_cache: "videoMetaCache ?s1 ''https://host/abc'' = Some exampleMeta"
    using f1 by (simp add: processRecord_videoMetaCache cacheMeta_def example_videoUrl init)
  have g1: "fst (resolveVideoMeta failingEnv ?s1 (videoUrl collidingRecord)) = Some exampleMeta"
    using resolveVideoMeta_cached [OF s1_cache, of failingEnv]
    by (simp add: collidingRecord_def example_videoUrl)
  have g2: "files ?s1 (savePath failingEnv (deriveFilename failingEnv collidingRecord)) = None"
    by (simp add: s1_files)
  have overwritten: "resources (metaFile (processRecords failingEnv initialState [exampleRecord, collidingRecord]))
        ''r1-TestClip.mp3'' =
       Some (newMeta ''uuid-i'' collidingRecord exampleMeta ''r1-TestClip.mp3'')"
    by (simp add: processRecord_encoded_fields(1) [OF g1 g2] putResource_def names s1_uuids
        failing_basics(3))
  have differs2: "newMeta ''uuid-i'' collidingRecord exampleMeta ''r1-TestClip.mp3''
       \<noteq> newMeta ''uuid-'' exampleRecord exampleMeta ''r1-TestClip.mp3''"
    by (simp add: newMeta_def)
  from old replaced differs names overwritten differs2 show ?thesis by blast
qed

section \<open>The whole run\<close>

lemma getVideoMeta_locals:
  "fst (getVideoMeta E (w\<lparr> videoMetaCache := c, metaFile := idx \<rparr>) u) = fst (getVideoMeta E w u)"
  by (simp add: getVideoMeta_def Let_def split: sum.splits)

lemma stripIllegal_example: "stripIllegal ''r1-Test/Clip.mp3'' = ''r1-TestClip.mp3''"
  by (simp add: stripIllegal_def illegalChars_def)

text \<open>
  C6. The end-to-end scenario: the store holds the one record with id \<open>r1\<close>, title
  \<open>Test/Clip\<close>, start time 10 and duration 5; its URL resolves to a stream of 48000 Hz at
  \<^verbatim>\<open>https://stream/abc.audio\<close>; the sanitizer strips the illegal characters; the
  output file is not on disk yet. Then the run invokes the encoder exactly once, with
  that stream as input, \<^verbatim>\<open>-ss 10\<close>, \<^verbatim>\<open>-t 5\<close>, video disabled (\<^verbatim>\<open>-vn\<close>), the
  audio codec fixed (\<^verbatim>\<open>-c:a libmp3lame\<close>) and the output path of the file
  \<^verbatim>\<open>r1-TestClip.mp3\<close>, the name with its slash removed; the index it persists is the
  loaded index plus one entry under that filename, with \<open>refId\<close> \<open>r1\<close>.
\<close>

theorem end_to_end_scenario:
  assumes "loadResourceFromDatabase E = Inr [exampleRecord]"
    and "sanitizeFilename E = stripIllegal"
    and "loadMetaFile E (files w) = Inr idx"
    and "files w (savePath E ''r1-TestClip.mp3'') = None"
    and "fst (getVideoMeta E w ''https://host/abc'') = Some vm"
    and "vm_source vm = \<lparr> asr = 48000, source_url = ''https://stream/abc.audio'' \<rparr>"
  shows "\<exists>s' m. downloadAudioclip E w = Inr s'
           \<and> encoderCalls s' = encoderCalls w @
                [[FFMPEG E, ''-hide_banner'', ''-nostdin'', ''-i'', ''https://stream/abc.audio'',
                  ''-ss'', ''10'', ''-t'', ''5'', ''-vn'', ''-c:a'', ''libmp3lame'',
                  savePath E ''r1-TestClip.mp3'']]
           \<and> metaFile s' = idx\<lparr> resources := (resources idx)(''r1-TestClip.mp3'' \<mapsto> m) \<rparr>
           \<and> refId m = ''r1'' \<and> filename m = ''r1-TestClip.mp3''
           \<and> files s' =
                (snd (shell_exec E
                  [FFMPEG E, ''-hide_banner'', ''-nostdin'', ''-i'', ''https://stream/abc.audio'',
                   ''-ss'', ''10'', ''-t'', ''5'', ''-vn'', ''-c:a'', ''libmp3lame'',
                   savePath E ''r1-TestClip.mp3''] (files w)))
                (metaFilePath E \<mapsto> JSON_stringify E (metaFile s'))"
proof -
  let ?s0 = "w\<lparr> videoMetaCache := Map.empty, metaFile := idx \<rparr>"
  let ?argv = "[FFMPEG E, ''-hide_banner'', ''-nostdin'', ''-i'', ''https://stream/abc.audio'',
                  ''-ss'', ''10'', ''-t'', ''5'', ''-vn'', ''-c:a'', ''libmp3lame'',
                  savePath E ''r1-TestClip.mp3'']"
  let ?m = "newMeta (UUIDv4 E (uuids w)) exampleRecord vm ''r1-TestClip.mp3''"
  let ?s1 = "processRecord E ?s0 exampleRecord"
  have fn: "deriveFilename E exampleRecord = ''r1-TestClip.mp3''"
    using stripIllegal_example by (simp add: deriveFilename_def assms(2) exampleRecord_def)
  have h1: "fst (resolveVideoMeta E ?s0 (videoUrl exampleRecord)) = Some vm"
    using assms(5) by (simp add: resolveVideoMeta_def example_videoUrl getVideoMeta_locals)
  have h2: "files ?s0 (savePath E (deriveFilename E exampleRecord)) = None"
    by (simp add: fn assms(4))
  have args: "encodeArgs E \<lparr> opt_url = source_url (vm_source vm),
      opt_output = savePath E (deriveFilename E exampleRecord),
      opt_startTime = startTime exampleRecord, opt_duration = duration exampleRecord \<rparr> = ?argv"
  proof -
    have "startTime exampleRecord = Some ''10''" "duration exampleRecord = Some ''5''"
      by (simp_all add: exampleRecord_def)
    then show ?thesis
      by (simp add: encodeArgs_def optArg_def fn assms(6))
  qed
  have run: "downloadAudioclip E w = Inr (?s1\<lparr> files := writeMetaFile E (metaFile ?s1) (files ?s1) \<rparr>)"
    by (simp add: downloadAudioclip_def assms(1,3) Let_def)
  have e: "encoderCalls ?s1 = encoderCalls w @ [?argv]"
    using processRecord_encoded_fields(2) [OF h1 h2] by (simp add: args)
  have f: "files ?s1 = snd (shell_exec E ?argv (files w))"
    using processRecord_encoded_fields(3) [OF h1 h2] by (simp add: args)
  have i: "metaFile ?s1 = idx\<lparr> resources := (resources idx)(''r1-TestClip.mp3'' \<mapsto> ?m) \<rparr>"
    using processRecord_encoded_fields(1) [OF h1 h2] by (simp add: fn putResource_def)
  have m: "refId ?m = ''r1''" "filename ?m = ''r1-TestClip.mp3''"
    by (simp_all add: newMeta_def exampleRecord_def)
  show ?thesis
    apply (rule exI [of _ "?s1\<lparr> files := writeMetaFile E (metaFile ?s1) (files ?s1) \<rparr>"])
    apply (rule exI [of _ ?m])
    using run e f i m by (simp add: writeMetaFile_def)
qed

theorem end_to_end_scenario_witness:
  "loadResourceFromDatabase scenarioEnv = Inr [exampleRecord]
   \<and> sanitizeFilename scenarioEnv = stripIllegal
   \<and> loadMetaFile scenarioEnv (files initialState) = Inr \<lparr> v = 1, resources = Map.empty \<rparr>
   \<and> files initialState (savePath scenarioEnv ''r1-TestClip.mp3'') = None
   \<and> fst (getVideoMeta scenarioEnv initialState ''https://host/abc'') = Some exampleMeta
   \<and> vm_source exampleMeta = \<lparr> asr = 48000, source_url = ''https://stream/abc.audio'' \<rparr>
   \<and> (\<exists>s' m. downloadAudioclip scenarioEnv initialState = Inr s'
          \<and> encoderCalls s' =
               [[''ffmpeg'', ''-hide_banner'', ''-nostdin'', ''-i'', ''https://stream/abc.audio'',
                 ''-ss'', ''10'', ''-t'', ''5'', ''-vn'', ''-c:a'', ''libmp3lame'',
                 ''/work/.temp/r1-TestClip.mp3'']]
          \<and> metaFile s' = \<lparr> v = 1, resources = [''r1-TestClip.mp3'' \<mapsto> m] \<rparr>
          \<and> refId m = ''r1''
          \<and> files s' ''/work/.temp/r1-TestClip.mp3'' = Some ''mp3'')"
proof -
  have a1: "loadResourceFromDatabase scenarioEnv = Inr [exampleRecord]"
    and a2: "sanitizeFilename scenarioEnv = stripIllegal"
    by (simp_all add: scenarioEnv_def exampleEnv_def)
  have a3: "loadMetaFile scenarioEnv (files initialState) = Inr \<lparr> v = 1, resources = Map.empty \<rparr>"
    and a4: "files initialState (savePath scenarioEnv ''r1-TestClip.mp3'') = None"
    by (simp_all add: initialState_def loadMetaFile_def)
  have "getVideoMeta scenarioEnv s u = getVideoMeta exampleEnv s u" for s u
    by (simp add: scenarioEnv_def getVideoMeta_def Let_def split: sum.splits)
  then have a5: "fst (getVideoMeta scenarioEnv initialState ''https://host/abc'') = Some exampleMeta"
    using example_getVideoMeta [of initialState] by (simp add: initialState_def)
  have a6: "vm_source exampleMeta = \<lparr> asr = 48000, source_url = ''https://stream/abc.audio'' \<rparr>"
    by (simp add: exampleMeta_def)
  have c: "FFMPEG scenarioEnv = ''ffmpeg''"
    "savePath scenarioEnv ''r1-TestClip.mp3'' = ''/work/.temp/r1-TestClip.mp3''"
    "metaFilePath scenarioEnv = ''/work/.temp/./meta.json''"
    "encoderCalls initialState = []"
    "snd (shell_exec scenarioEnv argv fs) = fs(last argv \<mapsto> ''mp3'')"
    for argv fs
    by (simp_all add: scenarioEnv_def exampleEnv_def savePath_def metaFilePath_def initialState_def)
  from end_to_end_scenario [OF a1 a2 a3 a4 a5 a6]
  have "\<exists>s' m. downloadAudioclip scenarioEnv initialState = Inr s'
          \<and> encoderCalls s' =
               [[''ffmpeg'', ''-hide_banner'', ''-nostdin'', ''-i'', ''https://stream/abc.audio'',
                 ''-ss'', ''10'', ''-t'', ''5'', ''-vn'', ''-c:a'', ''libmp3lame'',
                 ''/work/.temp/r1-TestClip.mp3'']]
          \<and> metaFile s' = \<lparr> v = 1, resources = [''r1-TestClip.mp3'' \<mapsto> m] \<rparr>
          \<and> refId m = ''r1''
          \<and> files s' ''/work/.temp/r1-TestClip.mp3'' = Some ''mp3''"
    by (auto simp: c)
  with a1 a2 a3 a4 a5 a6 show ?thesis by blast
qed

section \<open>The JSON codec reads back what it writes\<close>

lemma digit_roundtrip: "d < 10 \<Longrightarrow> isDigit (digitChar d) \<and> digitVal (digitChar d) = d"
  by (simp add: isDigit_def digitChar_def digitVal_def)

lemma showNat_digits: "\<forall>c \<in> set (showNat n). isDigit c"
proof (induction n rule: showNat.induct)
  case (1 n)
  show ?case
  proof (cases "n < 10")
    case True
    then show ?thesis by (subst showNat.simps) (simp add: digit_roundtrip)
  next
    case False
    have "n mod 10 < 10" by simp
    with 1 False show ?thesis
      by (subst showNat.simps) (auto simp: digit_roundtrip)
  qed
qed

lemma showNat_nonempty: "showNat n \<noteq> []"
  by (subst showNat.simps) simp

lemma readNat_snoc: "readNat (ds @ [c]) = 10 * readNat ds + digitVal c"
  by (simp add: readNat_def)

lemma readNat_showNat: "readNat (showNat n) = n"
proof (induction n rule: showNat.induct)
  case (1 n)
  show ?case
  proof (cases "n < 10")
    case True
    then show ?thesis
      by (subst showNat.simps) (simp add: readNat_def digit_roundtrip)
  next
    case False
    have "n mod 10 < 10" by simp
    then have "digitVal (digitChar (n mod 10)) = n mod 10" by (simp add: digit_roundtrip)
    with 1 False show ?thesis
      by (subst showNat.simps) (simp add: readNat_snoc)
  qed
qed

lemma parseNat_showNat:
  assumes "endsNumber rest"
  shows "parseNat (showNat n @ rest) = Some (n, rest)"
proof -
  from assms have stop: "takeWhile isDigit rest = []" "dropWhile isDigit rest = rest"
    by (auto simp: endsNumber_def split: list.splits)
  have "takeWhile isDigit (showNat n @ rest) = showNat n"
    using showNat_digits [of n] stop by (simp add: takeWhile_append2)
  moreover have "dropWhile isDigit (showNat n @ rest) = rest"
    using showNat_digits [of n] stop by (simp add: dropWhile_append2)
  ultimately show ?thesis
    by (simp add: parseNat_def showNat_nonempty readNat_showNat)
qed

lemma showNat_not_minus: "hd (showNat n) \<noteq> CHR ''-''"
proof -
  from showNat_nonempty [of n] showNat_digits [of n] have "isDigit (hd (showNat n))"
    by (cases "showNat n") auto
  then show ?thesis by (auto simp: isDigit_def)
qed

lemma parseInt_showInt:
  assumes "endsNumber rest"
  shows "parseInt (showInt i @ rest) = Some (i, rest)"
proof (cases "i < 0")
  case True
  then show ?thesis
    by (simp add: showInt_def parseInt_def parseNat_showNat [OF assms])
next
  case False
  obtain c cs where sh: "showNat (nat i) = c # cs"
    using showNat_nonempty [of "nat i"] by (cases "showNat (nat i)") auto
  with showNat_not_minus [of "nat i"] have "c \<noteq> CHR ''-''" by simp
  with False sh parseNat_showNat [OF assms, of "nat i"] show ?thesis
    by (simp add: showInt_def parseInt_def)
qed

lemma hexVal_hexDigit: "d < 16 \<Longrightarrow> hexVal (hexDigit d) = Some d"
  by (auto simp: hexVal_def hexDigit_def Let_def)

lemma hexVal_zero: "hexVal (CHR ''0'') = Some 0"
  by (simp add: hexVal_def)

lemma hex4_control:
  assumes "(of_char c :: nat) < 32"
  shows "hex4 (CHR ''0'') (CHR ''0'') (hexDigit ((of_char c :: nat) div 16))
           (hexDigit ((of_char c :: nat) mod 16)) = Some c"
proof -
  let ?n = "of_char c :: nat"
  have "?n div 16 < 16" "?n mod 16 < 16" using assms by simp_all
  then have "hexVal (hexDigit (?n div 16)) = Some (?n div 16)"
    "hexVal (hexDigit (?n mod 16)) = Some (?n mod 16)"
    by (simp_all add: hexVal_hexDigit)
  moreover have "?n div 16 * 16 + ?n mod 16 = ?n" by simp
  moreover have "?n < 256" using assms by simp
  ultimately show ?thesis
    by (simp add: hex4_def hexVal_zero)
qed

lemma unquote_escapeChar:
  "unquote (escapeChar c @ cs) = map_option (\<lambda>(t, rest). (c # t, rest)) (unquote cs)"
proof -
  consider "c = dq" | "c = bs" | "c = CHR 0x08" | "c = CHR 0x0C" | "c = CHR 0x0A"
    | "c = CHR 0x0D" | "c = CHR 0x09"
    | "c \<notin> {dq, bs, CHR 0x08, CHR 0x0C, CHR 0x0A, CHR 0x0D, CHR 0x09}" "(of_char c :: nat) < 32"
    | "c \<notin> {dq, bs, CHR 0x08, CHR 0x0C, CHR 0x0A, CHR 0x0D, CHR 0x09}" "\<not> (of_char c :: nat) < 32"
    by blast
  then show ?thesis
  proof cases
    case 8
    then show ?thesis
      by (simp add: escapeChar_def hex4_control dq_def bs_def)
  next
    case 9
    then show ?thesis
      by (simp add: escapeChar_def)
  qed (simp_all add: escapeChar_def unescapeChar_def dq_def bs_def)
qed

lemma unquote_escaped:
  "unquote (concat (map escapeChar t) @ dq # rest) = Some (t, rest)"
  by (induction t) (simp_all add: unquote_escapeChar)

lemma unquote_quote: "unquote (tl (quote t) @ rest) = Some (t, rest)"
  by (simp add: quote_def unquote_escaped)

lemma endsNumber_simps:
  "endsNumber []" "endsNumber (CHR '','' # cs)" "endsNumber (CHR '']'' # cs)"
  "endsNumber (CHR ''}'' # cs)"
  by (simp_all add: endsNumber_def isDigit_def)

lemma showInt_head:
  "\<exists>c cs. showInt n = c # cs \<and> (isDigit c \<or> c = CHR ''-'')"
proof (cases "n < 0")
  case True
  then show ?thesis by (simp add: showInt_def)
next
  case False
  from showNat_nonempty [of "nat n"] obtain c cs where sh: "showNat (nat n) = c # cs"
    by (cases "showNat (nat n)") auto
  with showNat_digits [of "nat n"] have "isDigit c" by simp
  with False sh show ?thesis by (simp add: showInt_def)
qed

lemma not_structural:
  assumes "isDigit c \<or> c = CHR ''-''"
  shows "c \<noteq> CHR ''[''" "c \<noteq> CHR ''{''" "c \<noteq> dq" "c \<noteq> CHR '']''" "c \<noteq> CHR ''}''"
  using assms by (auto simp: isDigit_def dq_def)

lemma render_head:
  "\<exists>c cs. render j = c # cs \<and> c \<noteq> CHR '']'' \<and> c \<noteq> CHR ''}''"
proof (cases j)
  case (JNumber n)
  from showInt_head [of n] obtain c cs where "showInt n = c # cs" "isDigit c \<or> c = CHR ''-''"
    by blast
  with not_structural(4,5) [of c] JNumber show ?thesis by simp
next
  case (JString t)
  then show ?thesis by (simp add: quote_def dq_def)
next
  case (JArray xs)
  then show ?thesis by simp
next
  case (JObject kvs)
  then show ?thesis by simp
qed

lemma parseValue_number:
  assumes "endsNumber rest"
  shows "parseValue (Suc f) (showInt n @ rest) = Some (JNumber n, rest)"
proof -
  from showInt_head [of n] obtain c cs where sh: "showInt n = c # cs" and c: "isDigit c \<or> c = CHR ''-''"
    by blast
  have "parseInt (c # cs @ rest) = Some (n, rest)"
    using parseInt_showInt [OF assms, of n] sh by simp
  with not_structural(1,2,3) [OF c] sh show ?thesis by simp
qed

lemma parseValue_string:
  "parseValue (Suc f) (quote t @ rest) = Some (JString t, rest)"
proof -
  have e: "quote t @ rest = dq # (tl (quote t) @ rest)"
    by (simp add: quote_def)
  have "dq \<noteq> CHR ''[''" "dq \<noteq> CHR ''{''" by (simp_all add: dq_def)
  then show ?thesis unfolding e by (simp add: unquote_quote)
qed

lemma parse_render:
  "cost j \<le> f \<Longrightarrow> endsNumber rest \<Longrightarrow> parseValue f (render j @ rest) = Some (j, rest)"
  "xs \<noteq> [] \<Longrightarrow> costElems xs \<le> f \<Longrightarrow> parseElems f (renderElems xs @ rest) = Some (xs, rest)"
  "kvs \<noteq> [] \<Longrightarrow> costMembers kvs \<le> f \<Longrightarrow> parseMembers f (renderMembers kvs @ rest) = Some (kvs, rest)"
proof (induction j and xs and kvs arbitrary: f rest and f rest and f rest
    rule: render_renderElems_renderMembers.induct)
  case (1 n)
  then obtain g where "f = Suc g" by (cases f) auto
  with 1 show ?case by (simp add: parseValue_number)
next
  case (2 t)
  then obtain g where "f = Suc g" by (cases f) auto
  then show ?case by (simp add: parseValue_string)
next
  case (3 xs)
  from "3.prems" obtain g where f: "f = Suc g" and g: "costElems xs \<le> g" by (cases f) auto
  show ?case
  proof (cases xs)
    case Nil
    with f show ?thesis by simp
  next
    case (Cons x ys)
    from render_head [of x] obtain c cs where h: "render x = c # cs" "c \<noteq> CHR '']''" by blast
    have ne: "xs \<noteq> []" using Cons by simp
    have "parseElems g (renderElems xs @ rest) = Some (xs, rest)"
      by (rule "3.IH" [OF ne g])
    moreover have "renderElems xs @ rest = c # (cs @ (if ys = [] then [] else '','') @ renderElems ys @ rest)"
      using Cons h by simp
    ultimately show ?thesis using f h(2) by simp
  qed
next
  case (4 kvs)
  from "4.prems" obtain g where f: "f = Suc g" and g: "costMembers kvs \<le> g" by (cases f) auto
  show ?case
  proof (cases kvs)
    case Nil
    with f show ?thesis by simp
  next
    case (Cons kv ys)
    obtain k x where kv: "kv = (k, x)" by (cases kv)
    have ne: "kvs \<noteq> []" using Cons by simp
    have "parseMembers g (renderMembers kvs @ rest) = Some (kvs, rest)"
      by (rule "4.IH" [OF ne g])
    moreover have "\<exists>cs. renderMembers kvs @ rest = dq # cs"
      using Cons kv by (simp add: quote_def)
    moreover have "dq \<noteq> CHR ''}''" by (simp add: dq_def)
    ultimately show ?thesis using f by auto
  qed
next
  case 5
  then show ?case by simp
next
  case (6 x xs)
  from "6.prems" obtain g where f: "f = Suc g" and g: "cost x + costElems xs \<le> g" by (cases f) auto
  show ?case
  proof (cases "xs = []")
    case True
    have "parseValue g (render x @ CHR '']'' # rest) = Some (x, CHR '']'' # rest)"
      using g by (intro "6.IH"(1)) (simp_all add: endsNumber_simps)
    with True f show ?thesis by simp
  next
    case False
    have "parseValue g (render x @ CHR '','' # renderElems xs @ rest) = Some (x, CHR '','' # renderElems xs @ rest)"
      using g by (intro "6.IH"(1)) (simp_all add: endsNumber_simps)
    moreover have "parseElems g (renderElems xs @ rest) = Some (xs, rest)"
      using g False by (intro "6.IH"(2)) simp_all
    ultimately show ?thesis using False f by simp
  qed
next
  case 7
  then show ?case by simp
next
  case (8 k x kvs)
  from "8.prems" obtain g where f: "f = Suc g" and g: "cost x + costMembers kvs \<le> g" by (cases f) auto
  have key: "unquote (tl (quote k) @ r) = Some (k, r)" for r
    by (rule unquote_quote)
  have q: "quote k @ r = dq # (tl (quote k) @ r)" for r
    by (simp add: quote_def)
  show ?case
  proof (cases "kvs = []")
    case True
    have "parseValue g (render x @ CHR ''}'' # rest) = Some (x, CHR ''}'' # rest)"
      using g by (intro "8.IH"(1)) (simp_all add: endsNumber_simps)
    with True f show ?thesis by (simp add: q key)
  next
    case False
    have "parseValue g (render x @ CHR '','' # renderMembers kvs @ rest) = Some (x, CHR '','' # renderMembers kvs @ rest)"
      using g by (intro "8.IH"(1)) (simp_all add: endsNumber_simps)
    moreover have "parseMembers g (renderMembers kvs @ rest) = Some (kvs, rest)"
      using g False by (intro "8.IH"(2)) simp_all
    ultimately show ?thesis using False f by (simp add: q key)
  qed
qed

lemma cost_le_length:
  "cost j \<le> length (render j)"
  "costElems xs \<le> length (renderElems xs)"
  "costMembers kvs \<le> length (renderMembers kvs)"
proof (induction j and xs and kvs rule: render_renderElems_renderMembers.induct)
  case (1 n)
  from showInt_head [of n] show ?case by auto
next
  case (2 t)
  then show ?case by (simp add: quote_def)
qed auto

lemma jsonParse_render: "jsonParse (render j) = Some j"
  using parse_render(1) [of j "length (render j)" "[]"] cost_le_length(1) [of j]
  by (simp add: jsonParse_def endsNumber_simps)

lemma orElse_None: "orElse None b = b" "orElse a None = a"
  by (simp_all add: orElse_def split: option.splits)

lemma lookup_Nil: "lookup k [] = None"
  by (simp add: lookup_def)

lemma lookup_append: "lookup k (xs @ ys) = orElse (lookup k ys) (lookup k xs)"
  by (simp add: lookup_def map_add_def orElse_def)

lemma lookup_Cons:
  "lookup k ((k', x) # kvs) = orElse (lookup k kvs) (if k = k' then Some x else None)"
  using lookup_append [of k "[(k', x)]" kvs] by (simp add: lookup_def)

lemma lookup_opt: "lookup k (opt k' f x) = (if k = k' then map_option f x else None)"
  by (cases x) (simp_all add: opt_def lookup_def)

lemmas lookup_simps = lookup_Nil lookup_append lookup_Cons lookup_opt orElse_None

lemma required_Some: "required f (Some j) = f j"
  by (simp add: required_def)

lemma optional_map:
  assumes "\<And>y. f (g y) = Some y"
  shows "optional f (map_option g x) = Some x"
  by (cases x) (simp_all add: optional_def assms)

lemma asString_JString: "asString (JString t) = Some t"
  by (simp add: asString_def)

lemma asNumber_JNumber: "asNumber (JNumber n) = Some n"
  by (simp add: asNumber_def)

lemma source_roundtrip: "sourceFromJSON (sourceToJSON x) = Some x"
  by (simp add: sourceFromJSON_def sourceToJSON_def lookup_simps required_Some
      optional_map asString_JString)

lemma contributor_roundtrip: "contributorFromJSON (contributorToJSON c) = Some c"
  by (simp add: contributorFromJSON_def contributorToJSON_def lookup_simps optional_map
      asString_JString)

lemma filemeta_roundtrip: "filemetaFromJSON (filemetaToJSON x) = Some x"
  by (simp add: filemetaFromJSON_def filemetaToJSON_def lookup_simps optional_map
      asString_JString asNumber_JNumber)

lemma tags_roundtrip: "tagsFromJSON (tagsToJSON ts) = Some ts"
  by (induction ts) (simp_all add: tagsFromJSON_def tagsToJSON_def asString_JString)

lemma language_roundtrip: "languageFromJSON (languageToJSON l) = Some l"
  by (induction l) (auto simp: languageFromJSON_def languageToJSON_def asString_JString)

lemma meta_roundtrip: "metaFromJSON (metaToJSON m) = Some m"
  by (simp add: metaFromJSON_def metaToJSON_def lookup_simps required_Some optional_map
      asString_JString source_roundtrip contributor_roundtrip filemeta_roundtrip
      tags_roundtrip language_roundtrip)

lemma entries_roundtrip: "entriesFromJSON (entriesToJSON ks res) = Some (res |` set ks)"
proof (induction ks)
  case Nil
  then show ?case by (simp add: entriesToJSON_def)
next
  case (Cons k ks)
  have tail: "entriesFromJSON (entriesToJSON ks res) = Some (res |` set ks)"
    by (rule Cons.IH)
  show ?case
  proof (cases "res k")
    case None
    then have "res |` set (k # ks) = res |` set ks"
      by (auto simp: restrict_map_def fun_eq_iff)
    with None tail show ?thesis by (simp add: entriesToJSON_def)
  next
    case (Some m)
    then have "[k \<mapsto> m] ++ (res |` set ks) = res |` set (k # ks)"
      by (auto simp: restrict_map_def map_add_def fun_eq_iff split: option.splits)
    with Some tail show ?thesis by (simp add: entriesToJSON_def meta_roundtrip)
  qed
qed

lemma index_roundtrip:
  assumes "dom (resources idx) \<subseteq> set ks"
  shows "indexFromJSON (indexToJSON ks idx) = Some idx"
proof -
  have "(resources idx |` set ks) k = resources idx k" for k
    using assms by (cases "resources idx k") (auto simp: restrict_map_def)
  then have "resources idx |` set ks = resources idx"
    by (simp add: fun_eq_iff)
  then show ?thesis
    by (simp add: indexFromJSON_def indexToJSON_def lookup_simps required_Some
        asNumber_JNumber resourcesFromJSON_def entries_roundtrip)
qed

lemma parseIndex_stringifyIndex:
  assumes "dom (resources idx) \<subseteq> set ks"
  shows "parseIndex (stringifyIndex ks idx) = Inr idx"
  by (simp add: parseIndex_def stringifyIndex_def jsonParse_render index_roundtrip [OF assms])

section \<open>Persisting and loading the index\<close>

lemma showInt_one: "showInt 1 = ''1''"
  by code_simp

text \<open>The text the codec writes for the index of \<open>staleState\<close>.\<close>

lemma example_rendered:
  "stringifyIndex [''r1-TestClip.mp3'', ''r2-Other Clip.mp3''] (metaFile staleState) =
   ''{\"v\":1,\"resources\":{\"r1-TestClip.mp3\":{\"id\":\"uuid-of-an-earlier-run\",\"refId\":\"r1\",\"title\":\"Test/Clip\",\"filename\":\"r1-TestClip.mp3\",\"source\":{\"url\":\"https://host/watch/abc\",\"startTime\":\"10\",\"title\":\"Test/Clip\"},\"contributor\":{}}}}''"
  by (simp add: stringifyIndex_def indexToJSON_def entriesToJSON_def staleState_def staleMeta_def
      metaToJSON_def sourceToJSON_def contributorToJSON_def opt_def showInt_one quote_def
      escapeChar_def dq_def bs_def)

text \<open>
  C7. With the JSON codec of the index, persisting an index and loading the file again
  yields the same index, version tag and mapping alike, for every index value (an index
  has finitely many filenames, listed by \<open>ks\<close> in the order the codec writes them); in
  particular the index a run has written is the index the next run loads. Loading when
  no index file exists yields the empty index of version 1.
\<close>

theorem persist_then_load_roundtrip:
  "(JSON_parse E = parseIndex \<and> JSON_stringify E idx = stringifyIndex ks idx
      \<and> dom (resources idx) \<subseteq> set ks \<longrightarrow>
      loadMetaFile E (writeMetaFile E idx fs) = Inr idx)
   \<and> (fs (metaFilePath E) = None \<longrightarrow> loadMetaFile E fs = Inr \<lparr> v = 1, resources = Map.empty \<rparr>)
   \<and> (downloadAudioclip E w = Inr s' \<and> JSON_parse E = parseIndex
      \<and> JSON_stringify E (metaFile s') = stringifyIndex ks (metaFile s')
      \<and> dom (resources (metaFile s')) \<subseteq> set ks \<longrightarrow>
      loadMetaFile E (files s') = Inr (metaFile s'))"
proof -
  have rt: "loadMetaFile E (writeMetaFile E i f) = Inr i"
    if "JSON_parse E = parseIndex" "JSON_stringify E i = stringifyIndex ks i"
      "dom (resources i) \<subseteq> set ks" for i f
    using that parseIndex_stringifyIndex [of i ks]
    by (simp add: loadMetaFile_def writeMetaFile_def)
  have fresh: "fs (metaFilePath E) = None \<longrightarrow> loadMetaFile E fs = Inr \<lparr> v = 1, resources = Map.empty \<rparr>"
    by (simp add: loadMetaFile_def)
  have next_run: "loadMetaFile E (files s') = Inr (metaFile s')"
    if d: "downloadAudioclip E w = Inr s'"
      and j: "JSON_parse E = parseIndex"
        "JSON_stringify E (metaFile s') = stringifyIndex ks (metaFile s')"
        "dom (resources (metaFile s')) \<subseteq> set ks"
  proof -
    from d obtain s where s': "s' = s\<lparr> files := writeMetaFile E (metaFile s) (files s) \<rparr>"
      by (auto simp: downloadAudioclip_def Let_def split: sum.splits)
    then have "metaFile s' = metaFile s" "files s' = writeMetaFile E (metaFile s') (files s)"
      by simp_all
    with rt [OF j] show ?thesis by simp
  qed
  from rt fresh next_run show ?thesis by blast
qed

theorem persist_then_load_roundtrip_witness:
  "JSON_parse jsonEnv = parseIndex
   \<and> JSON_stringify jsonEnv (metaFile staleState) =
       stringifyIndex [''r1-TestClip.mp3'', ''r2-Other Clip.mp3''] (metaFile staleState)
   \<and> dom (resources (metaFile staleState)) = {''r1-TestClip.mp3''}
   \<and> writeMetaFile jsonEnv (metaFile staleState) (files presentState) (metaFilePath jsonEnv) =
       Some ''{\"v\":1,\"resources\":{\"r1-TestClip.mp3\":{\"id\":\"uuid-of-an-earlier-run\",\"refId\":\"r1\",\"title\":\"Test/Clip\",\"filename\":\"r1-TestClip.mp3\",\"source\":{\"url\":\"https://host/watch/abc\",\"startTime\":\"10\",\"title\":\"Test/Clip\"},\"contributor\":{}}}}''
   \<and> loadMetaFile jsonEnv (writeMetaFile jsonEnv (metaFile staleState) (files presentState)) =
       Inr \<lparr> v = 1, resources = [''r1-TestClip.mp3'' \<mapsto> staleMeta] \<rparr>
   \<and> files presentState (metaFilePath jsonEnv) = None
   \<and> loadMetaFile jsonEnv (files presentState) = Inr \<lparr> v = 1, resources = Map.empty \<rparr>"
proof -
  note t = persist_then_load_roundtrip
    [of jsonEnv "metaFile staleState" "[''r1-TestClip.mp3'', ''r2-Other Clip.mp3'']"
      "files presentState"]
  have a: "JSON_parse jsonEnv = parseIndex"
    and b: "JSON_stringify jsonEnv (metaFile staleState) =
       stringifyIndex [''r1-TestClip.mp3'', ''r2-Other Clip.mp3''] (metaFile staleState)"
    by (simp_all add: jsonEnv_def)
  have i: "metaFile staleState = \<lparr> v = 1, resources = [''r1-TestClip.mp3'' \<mapsto> staleMeta] \<rparr>"
    by (simp add: staleState_def)
  have c: "dom (resources (metaFile staleState)) = {''r1-TestClip.mp3''}"
    by (simp add: i)
  from t [THEN conjunct1] a b c
  have l: "loadMetaFile jsonEnv (writeMetaFile jsonEnv (metaFile staleState) (files presentState)) =
       Inr \<lparr> v = 1, resources = [''r1-TestClip.mp3'' \<mapsto> staleMeta] \<rparr>"
    by (simp add: i)
  have n: "files presentState (metaFilePath jsonEnv) = None"
    by (simp add: presentState_def metaFilePath_def jsonEnv_def exampleEnv_def)
  from t [THEN conjunct2, THEN conjunct1] n
  have e: "loadMetaFile jsonEnv (files presentState) = Inr \<lparr> v = 1, resources = Map.empty \<rparr>"
    by simp
  have f: "writeMetaFile jsonEnv (metaFile staleState) (files presentState) (metaFilePath jsonEnv) =
       Some ''{\"v\":1,\"resources\":{\"r1-TestClip.mp3\":{\"id\":\"uuid-of-an-earlier-run\",\"refId\":\"r1\",\"title\":\"Test/Clip\",\"filename\":\"r1-TestClip.mp3\",\"source\":{\"url\":\"https://host/watch/abc\",\"startTime\":\"10\",\"title\":\"Test/Clip\"},\"contributor\":{}}}}''"
    by (simp only: writeMetaFile_def b example_rendered) simp
  from a b c f l n e show ?thesis by blast
qed

end
